theory Spec2Isabelle
  imports Complex_Main "HOL-Library.Sublist"
begin

section \<open>Python values\<close>

text \<open>
  The program moves untyped Python values around: the result of \<^verbatim>\<open>json.loads\<close>, the
  text of a completion, \<^verbatim>\<open>None\<close>. One datatype holds them all; \<open>JNull\<close> is
  \<^verbatim>\<open>None\<close>, a dictionary is an association list in insertion order.
\<close>

datatype json =
    JNull
  | JBool bool
  | JInt int
  | JFloat real
  | JStr string
  | JArr "json list"
  | JObj "(string \<times> json) list"

datatype error = TypeError | AttributeError | KeyError | JSONDecodeError

text \<open>Truth value of a Python object, as \<^verbatim>\<open>if not key_points\<close> tests it.\<close>

fun truthy :: "json \<Rightarrow> bool" where
  "truthy JNull = False"
| "truthy (JBool b) = b"
| "truthy (JInt n) = (n \<noteq> 0)"
| "truthy (JFloat x) = (x \<noteq> 0)"
| "truthy (JStr s) = (s \<noteq> [])"
| "truthy (JArr xs) = (xs \<noteq> [])"
| "truthy (JObj kvs) = (kvs \<noteq> [])"

text \<open>
  \<^verbatim>\<open>for kp in key_points\<close>: a list yields its items, a string its characters, a
  dictionary its keys; anything else raises TypeError.
\<close>

fun py_iter :: "json \<Rightarrow> error + json list" where
  "py_iter (JArr xs) = Inr xs"
| "py_iter (JStr s) = Inr (map (\<lambda>c. JStr [c]) s)"
| "py_iter (JObj kvs) = Inr (map (\<lambda>kv. JStr (fst kv)) kvs)"
| "py_iter v = Inl TypeError"

text \<open>\<^verbatim>\<open>d.get(k, default)\<close>: a value that is not a dictionary has no \<^verbatim>\<open>get\<close>.\<close>

fun py_get :: "json \<Rightarrow> string \<Rightarrow> json \<Rightarrow> error + json" where
  "py_get (JObj kvs) k dflt = Inr (case map_of kvs k of None \<Rightarrow> dflt | Some v \<Rightarrow> v)"
| "py_get v k dflt = Inl AttributeError"

text \<open>\<^verbatim>\<open>d[k]\<close> on a dictionary.\<close>

fun py_index :: "json \<Rightarrow> string \<Rightarrow> error + json" where
  "py_index (JObj kvs) k = (case map_of kvs k of None \<Rightarrow> Inl KeyError | Some v \<Rightarrow> Inr v)"
| "py_index v k = Inl TypeError"

text \<open>\<^verbatim>\<open>needle in text\<close> on strings.\<close>

primrec contains :: "string \<Rightarrow> string \<Rightarrow> bool" where
  "contains needle [] = (needle = [])"
| "contains needle (c # cs) = (prefix needle (c # cs) \<or> contains needle cs)"

section \<open>The completion gateway\<close>

record blog_post =
  post_title :: string
  post_content :: string

text \<open>
  A tool invocation of the model: \<open>tc_arguments\<close> is the argument text, which the
  program passes to \<^verbatim>\<open>json.loads\<close>.
\<close>

record tool_call =
  tc_id :: string
  tc_name :: string
  tc_arguments :: string

text \<open>
  What the program reads of a completion: \<^verbatim>\<open>res.choices[0].message\<close>, with its
  \<^verbatim>\<open>content\<close> (absent when the model answers with tool invocations only) and its
  \<^verbatim>\<open>tool_calls\<close> (the empty list stands for \<^verbatim>\<open>None\<close> too: both are false).
\<close>

record response =
  msg_content :: "string option"
  tool_calls :: "tool_call list"

datatype message =
    Msg string string
  | AssistantMsg response
  | ToolMsg string string string

record request =
  req_messages :: "message list"
  req_tools :: "string list"
  req_tool_choice :: "string option"

text \<open>
  The external collaborators. The gateway answers the \<open>n\<close>-th request of a run
  (\<open>None\<close> when \<^verbatim>\<open>client.chat.completions.create\<close> raises);
  \<open>sample_blog_post\<close> is what \<^verbatim>\<open>get_sample_blog_post()\<close> returns;
  \<open>json_loads\<close> is \<open>None\<close> where \<^verbatim>\<open>json.loads\<close> raises;
  \<open>py_repr\<close> renders a value that is not a string inside an f-string.
\<close>

record env =
  gateway :: "nat \<Rightarrow> request \<Rightarrow> response option"
  sample_blog_post :: "blog_post option"
  json_loads :: "string \<Rightarrow> json option"
  json_dumps :: "json \<Rightarrow> string"
  py_repr :: "json \<Rightarrow> string"

text \<open>
  A computation takes the log of the requests sent so far and returns its result, or the
  exception it raised, with the log extended.
\<close>

type_synonym log = "request list"

type_synonym 'a io = "log \<Rightarrow> (error + 'a) \<times> log"

definition returns :: "'a \<Rightarrow> 'a io" where
  "returns x w = (Inr x, w)"

definition raise :: "error \<Rightarrow> 'a io" where
  "raise e w = (Inl e, w)"

definition bind :: "'a io \<Rightarrow> ('a \<Rightarrow> 'b io) \<Rightarrow> 'b io" where
  "bind m f w = (case m w of (Inl e, w') \<Rightarrow> (Inl e, w') | (Inr x, w') \<Rightarrow> f x w')"

definition lift :: "error + 'a \<Rightarrow> 'a io" where
  "lift r w = (r, w)"

text \<open>\<^verbatim>\<open>call_llm\<close> catches every exception of the client and returns \<^verbatim>\<open>None\<close>.\<close>

definition call_llm :: "env \<Rightarrow> message list \<Rightarrow> string list \<Rightarrow> string option \<Rightarrow> response option io" where
  "call_llm E messages tools tool_choice w =
     (let req = \<lparr>req_messages = messages, req_tools = tools, req_tool_choice = tool_choice\<rparr>
      in (Inr (gateway E (length w) req), w @ [req]))"

definition get_sample_blog_post :: "env \<Rightarrow> blog_post option" where
  "get_sample_blog_post E = sample_blog_post E"

definition loads :: "env \<Rightarrow> string \<Rightarrow> json io" where
  "loads E s = (case json_loads E s of None \<Rightarrow> raise JSONDecodeError | Some v \<Rightarrow> returns v)"

section \<open>Prompt assembly\<close>

definition nl :: string where
  "nl = [CHR 0x0A]"

text \<open>A value inside an f-string: a string as it is, anything else rendered.\<close>

definition fmt :: "env \<Rightarrow> json \<Rightarrow> string" where
  "fmt E v = (case v of JStr s \<Rightarrow> s | _ \<Rightarrow> py_repr E v)"

fun join :: "string \<Rightarrow> string list \<Rightarrow> string" where
  "join sep [] = []"
| "join sep [x] = x"
| "join sep (x # y # ys) = x @ sep @ join sep (y # ys)"

definition bullets :: "env \<Rightarrow> json list \<Rightarrow> string" where
  "bullets E kps = join nl (map (\<lambda>kp. ''- '' @ fmt E kp) kps)"

section \<open>Reflexion system\<close>

record eval_result =
  quality_score :: real
  feedback :: string

definition evaluate_messages :: "env \<Rightarrow> json \<Rightarrow> string \<Rightarrow> message list" where
  "evaluate_messages E content content_type =
     [Msg ''system'' ''Evaluate quality and give feedback.'',
      Msg ''user'' (''Evaluate this '' @ content_type @ '':'' @ nl @ fmt E content)]"

definition evaluate_content :: "env \<Rightarrow> json \<Rightarrow> string \<Rightarrow> eval_result io" where
  "evaluate_content E content content_type =
     bind (call_llm E (evaluate_messages E content content_type) [] None) (\<lambda>res.
       case res of
         Some r \<Rightarrow>
           (case msg_content r of
              None \<Rightarrow> raise TypeError
            | Some fb \<Rightarrow>
                returns \<lparr>quality_score = (if contains ''good'' fb then 0.9 else 0.6),
                         feedback = fb\<rparr>)
       | None \<Rightarrow> returns \<lparr>quality_score = 0.5, feedback = ''No evaluation''\<rparr>)"

definition improve_messages :: "env \<Rightarrow> json \<Rightarrow> string \<Rightarrow> message list" where
  "improve_messages E content fb =
     [Msg ''system'' ''Improve content based on feedback.'',
      Msg ''user'' (''Feedback: '' @ fb @ nl @ ''Content: '' @ fmt E content)]"

definition improve_content :: "env \<Rightarrow> json \<Rightarrow> string \<Rightarrow> string \<Rightarrow> json io" where
  "improve_content E content fb content_type =
     bind (call_llm E (improve_messages E content fb) [] None) (\<lambda>res.
       case res of
         Some r \<Rightarrow> returns (case msg_content r of None \<Rightarrow> JNull | Some t \<Rightarrow> JStr t)
       | None \<Rightarrow> returns content)"

text \<open>
  The body of \<^verbatim>\<open>for _ in range(max_attempts)\<close> in \<^verbatim>\<open>wrapped\<close>, with the
  number of rounds left.
\<close>

fun reflexion_loop :: "env \<Rightarrow> nat \<Rightarrow> string \<Rightarrow> json \<Rightarrow> json io" where
  "reflexion_loop E 0 content_type content = returns content"
| "reflexion_loop E (Suc n) content_type content =
     bind (evaluate_content E content content_type) (\<lambda>eval_result.
       if quality_score eval_result \<ge> 0.8 then returns content
       else bind (improve_content E content (feedback eval_result) content_type)
              (reflexion_loop E n content_type))"

text \<open>
  \<^verbatim>\<open>generate_with_reflexion(generator_func, max_attempts)(*args, content_type=...)\<close>:
  \<open>generator_func\<close> stands for the generator applied to its arguments.
  \<^verbatim>\<open>range\<close> of a negative number is empty.
\<close>

definition generate_with_reflexion :: "env \<Rightarrow> json io \<Rightarrow> int \<Rightarrow> string \<Rightarrow> json io" where
  "generate_with_reflexion E generator_func max_attempts content_type =
     bind generator_func (reflexion_loop E (nat max_attempts) content_type)"

section \<open>Task functions\<close>

text \<open>
  A tool schema is sent by name. Each task builds its messages first (subscripting a
  missing blog post or iterating key points that are no sequence raises there, before
  any request is sent), then makes one request with its own schema forced.
\<close>

definition extract_messages :: "blog_post \<Rightarrow> message list" where
  "extract_messages p =
     [Msg ''system'' ''Extract key points from blog posts.'',
      Msg ''user'' (''Title: '' @ post_title p @ nl @ ''Content: '' @ post_content p)]"

definition task_extract_key_points :: "env \<Rightarrow> blog_post option \<Rightarrow> json io" where
  "task_extract_key_points E blog_post =
     (case blog_post of
        None \<Rightarrow> raise TypeError
      | Some p \<Rightarrow>
          bind (call_llm E (extract_messages p) [''extract_key_points'']
                  (Some ''extract_key_points'')) (\<lambda>res.
            case res of
              None \<Rightarrow> returns (JArr [])
            | Some r \<Rightarrow>
                (case tool_calls r of
                   [] \<Rightarrow> returns (JArr [])
                 | tc # _ \<Rightarrow>
                     bind (loads E (tc_arguments tc)) (\<lambda>a.
                       lift (py_get a ''key_points'' (JArr []))))))"

definition summary_messages :: "env \<Rightarrow> json list \<Rightarrow> message list" where
  "summary_messages E kps =
     [Msg ''system'' ''Summarize given points.'',
      Msg ''user'' (''Summarize:'' @ nl @ bullets E kps)]"

definition task_generate_summary :: "env \<Rightarrow> json \<Rightarrow> json io" where
  "task_generate_summary E key_points =
     bind (lift (py_iter key_points)) (\<lambda>kps.
       bind (call_llm E (summary_messages E kps) [''generate_summary'']
               (Some ''generate_summary'')) (\<lambda>res.
         case res of
           None \<Rightarrow> returns (JStr [])
         | Some r \<Rightarrow>
             (case tool_calls r of
                [] \<Rightarrow> returns (JStr [])
              | tc # _ \<Rightarrow>
                  bind (loads E (tc_arguments tc)) (\<lambda>a.
                    lift (py_get a ''summary'' (JStr []))))))"

definition social_messages :: "env \<Rightarrow> string \<Rightarrow> json list \<Rightarrow> message list" where
  "social_messages E blog_title kps =
     [Msg ''system'' ''Create platform-specific social media posts.'',
      Msg ''user'' (''Title: '' @ blog_title @ nl @ bullets E kps)]"

definition task_create_social_media_posts :: "env \<Rightarrow> json \<Rightarrow> string \<Rightarrow> json io" where
  "task_create_social_media_posts E key_points blog_title =
     bind (lift (py_iter key_points)) (\<lambda>kps.
       bind (call_llm E (social_messages E blog_title kps) [''create_social_media_posts'']
               (Some ''create_social_media_posts'')) (\<lambda>res.
         case res of
           None \<Rightarrow> returns (JObj [])
         | Some r \<Rightarrow>
             (case tool_calls r of
                [] \<Rightarrow> returns (JObj [])
              | tc # _ \<Rightarrow> loads E (tc_arguments tc))))"

definition newsletter_messages :: "env \<Rightarrow> blog_post \<Rightarrow> json \<Rightarrow> json list \<Rightarrow> message list" where
  "newsletter_messages E p summary kps =
     [Msg ''system'' ''Write a newsletter email.'',
      Msg ''user'' (''Title: '' @ post_title p @ nl @ ''Summary: '' @ fmt E summary @ nl
                    @ ''Key Points:'' @ nl @ bullets E kps)]"

definition task_create_email_newsletter :: "env \<Rightarrow> blog_post option \<Rightarrow> json \<Rightarrow> json \<Rightarrow> json io" where
  "task_create_email_newsletter E blog_post summary key_points =
     (case blog_post of
        None \<Rightarrow> raise TypeError
      | Some p \<Rightarrow>
          bind (lift (py_iter key_points)) (\<lambda>kps.
            bind (call_llm E (newsletter_messages E p summary kps) [''create_email_newsletter'']
                    (Some ''create_email_newsletter'')) (\<lambda>res.
              case res of
                None \<Rightarrow> returns (JObj [])
              | Some r \<Rightarrow>
                  (case tool_calls r of
                     [] \<Rightarrow> returns (JObj [])
                   | tc # _ \<Rightarrow> loads E (tc_arguments tc)))))"

section \<open>Workflows\<close>

definition run_workflow_with_reflexion :: "env \<Rightarrow> blog_post option \<Rightarrow> json io" where
  "run_workflow_with_reflexion E blog_post =
     bind (task_extract_key_points E blog_post) (\<lambda>key_points.
     bind (generate_with_reflexion E (task_generate_summary E key_points) 3 ''summary'')
       (\<lambda>summary.
     bind (case blog_post of
             None \<Rightarrow> raise TypeError
           | Some p \<Rightarrow>
               generate_with_reflexion E
                 (task_create_social_media_posts E key_points (post_title p)) 3
                 ''social_media_post'') (\<lambda>sm_posts.
     bind (generate_with_reflexion E
             (task_create_email_newsletter E blog_post summary key_points) 3 ''email'')
       (\<lambda>email.
     returns (JObj [(''summary'', summary), (''social_media'', sm_posts),
                    (''email'', email)])))))"

section \<open>Agent workflow\<close>

definition define_agent_tools :: "string list" where
  "define_agent_tools =
     [''extract_key_points'', ''generate_summary'', ''create_social_media_posts'',
      ''create_email_newsletter'', ''finish'']"

text \<open>
  The fallback of a dispatch: key points that are missing or empty are extracted again
  from the sample blog post.
\<close>

definition key_points_or_extract :: "env \<Rightarrow> blog_post option \<Rightarrow> json \<Rightarrow> json io" where
  "key_points_or_extract E blog_post key_points =
     (if \<not> truthy key_points then task_extract_key_points E blog_post
      else returns key_points)"

definition execute_agent_tool :: "env \<Rightarrow> string \<Rightarrow> json \<Rightarrow> json io" where
  "execute_agent_tool E tool_name arguments =
     (let blog_post = get_sample_blog_post E in
      if tool_name = ''extract_key_points'' then
        bind (task_extract_key_points E blog_post) (\<lambda>kp.
          returns (JObj [(''key_points'', kp)]))
      else if tool_name = ''generate_summary'' then
        bind (lift (py_get arguments ''key_points'' JNull)) (\<lambda>key_points.
        bind (key_points_or_extract E blog_post key_points) (\<lambda>key_points.
        bind (task_generate_summary E key_points) (\<lambda>s.
          returns (JObj [(''summary'', s)]))))
      else if tool_name = ''create_social_media_posts'' then
        bind (lift (py_get arguments ''key_points'' JNull)) (\<lambda>key_points.
        bind (key_points_or_extract E blog_post key_points) (\<lambda>key_points.
          case blog_post of
            None \<Rightarrow> raise TypeError
          | Some p \<Rightarrow> task_create_social_media_posts E key_points (post_title p)))
      else if tool_name = ''create_email_newsletter'' then
        bind (lift (py_get arguments ''key_points'' JNull)) (\<lambda>key_points.
        bind (lift (py_get arguments ''summary'' JNull)) (\<lambda>summary.
        bind (key_points_or_extract E blog_post key_points) (\<lambda>key_points.
        bind (if \<not> truthy summary then task_generate_summary E key_points
              else returns summary) (\<lambda>summary.
          task_create_email_newsletter E blog_post summary key_points))))
      else returns (JObj []))"

record results =
  res_summary :: json
  res_social_posts :: json
  res_email :: json

definition results_dict :: "results \<Rightarrow> json" where
  "results_dict rs =
     JObj [(''summary'', res_summary rs), (''social_posts'', res_social_posts rs),
           (''email'', res_email rs)]"

definition agent_system_prompt :: string where
  "agent_system_prompt =
     ''You are a Content Repurposing Agent. Your job is to take a blog post and repurpose it into:'' @ nl
     @ ''1. Extracted key points'' @ nl
     @ ''2. A concise summary'' @ nl
     @ ''3. Social media posts'' @ nl
     @ ''4. An email newsletter'' @ nl
     @ ''Use the tools provided, and when you'' @ [CHR 0x27] @ ''re done, call the ''
     @ [CHR 0x27] @ ''finish'' @ [CHR 0x27] @ '' tool with all the final results.''"

definition initial_messages :: "blog_post \<Rightarrow> message list" where
  "initial_messages p =
     [Msg ''system'' agent_system_prompt,
      Msg ''user'' (''Blog:'' @ nl @ nl @ ''Title: '' @ post_title p @ nl @ nl
                    @ ''Content: '' @ post_content p)]"

text \<open>Saving a partial result after a dispatch.\<close>

definition save_partial :: "string \<Rightarrow> json \<Rightarrow> results \<Rightarrow> results io" where
  "save_partial tool_name tool_result rs =
     (if tool_name = ''generate_summary'' then
        bind (lift (py_get tool_result ''summary'' JNull)) (\<lambda>s.
          returns (rs\<lparr>res_summary := s\<rparr>))
      else if tool_name = ''create_social_media_posts'' then
        returns (rs\<lparr>res_social_posts := tool_result\<rparr>)
      else if tool_name = ''create_email_newsletter'' then
        returns (rs\<lparr>res_email := tool_result\<rparr>)
      else returns rs)"

definition tool_message :: "env \<Rightarrow> tool_call \<Rightarrow> json \<Rightarrow> message" where
  "tool_message E tc tool_result =
     ToolMsg (tc_id tc) (tc_name tc)
       (case tool_result of JObj kvs \<Rightarrow> json_dumps E tool_result | _ \<Rightarrow> fmt E tool_result)"

text \<open>
  The inner loop \<^verbatim>\<open>for tool_call in msg.tool_calls\<close>: it either returns from the
  whole workflow (\<open>Return\<close>, on \<^verbatim>\<open>finish\<close>) or ends with the conversation and the
  partial results it has built.
\<close>

datatype turn = Return json | Continue "message list" results

fun run_tool_calls :: "env \<Rightarrow> tool_call list \<Rightarrow> message list \<Rightarrow> results \<Rightarrow> turn io" where
  "run_tool_calls E [] messages rs = returns (Continue messages rs)"
| "run_tool_calls E (tc # tcs) messages rs =
     bind (loads E (tc_arguments tc)) (\<lambda>arguments.
       if tc_name tc = ''finish'' then returns (Return arguments)
       else
         bind (execute_agent_tool E (tc_name tc) arguments) (\<lambda>tool_result.
         bind (save_partial (tc_name tc) tool_result rs) (\<lambda>rs'.
           run_tool_calls E tcs (messages @ [tool_message E tc tool_result]) rs')))"

text \<open>The outer loop \<^verbatim>\<open>for i in range(max_iterations)\<close>, with the turns left.\<close>

fun agent_loop :: "env \<Rightarrow> nat \<Rightarrow> message list \<Rightarrow> results \<Rightarrow> json io" where
  "agent_loop E 0 messages rs = returns (results_dict rs)"
| "agent_loop E (Suc n) messages rs =
     bind (call_llm E messages define_agent_tools None) (\<lambda>response.
       case response of
         None \<Rightarrow> returns (JObj [(''error'', JStr ''LLM call failed'')])
       | Some msg \<Rightarrow>
           (if tool_calls msg = [] then returns (results_dict rs)
            else
              bind (run_tool_calls E (tool_calls msg) (messages @ [AssistantMsg msg]) rs)
                (\<lambda>t. case t of
                        Return arguments \<Rightarrow> returns arguments
                      | Continue messages' rs' \<Rightarrow> agent_loop E n messages' rs')))"

definition max_iterations :: nat where
  "max_iterations = 20"

definition run_agent_workflow :: "env \<Rightarrow> blog_post option \<Rightarrow> json io" where
  "run_agent_workflow E blog_post =
     (case blog_post of
        None \<Rightarrow> raise TypeError
      | Some p \<Rightarrow>
          agent_loop E max_iterations (initial_messages p)
            \<lparr>res_summary = JNull, res_social_posts = JNull, res_email = JNull\<rparr>)"

section \<open>Comparison\<close>

record fragment_evals =
  ev_summary :: eval_result
  ev_social :: eval_result
  ev_email :: eval_result

record report =
  reflexion_eval :: fragment_evals
  agent_eval :: fragment_evals

text \<open>The dictionary that \<^verbatim>\<open>compare_workflows\<close> returns, from the two outputs.\<close>

definition compare_report :: "env \<Rightarrow> json \<Rightarrow> json \<Rightarrow> report io" where
  "compare_report E reflexion_output agent_output =
     bind (lift (py_index reflexion_output ''summary'')) (\<lambda>rs.
     bind (evaluate_content E rs ''summary'') (\<lambda>e1.
     bind (lift (py_index reflexion_output ''social_media'')) (\<lambda>rp.
     bind (evaluate_content E (JStr (json_dumps E rp)) ''social_media_post'') (\<lambda>e2.
     bind (lift (py_index reflexion_output ''email'')) (\<lambda>re.
     bind (evaluate_content E (JStr (json_dumps E re)) ''email'') (\<lambda>e3.
     bind (lift (py_get agent_output ''summary'' (JStr []))) (\<lambda>as.
     bind (evaluate_content E as ''summary'') (\<lambda>e4.
     bind (lift (py_get agent_output ''social_posts'' (JObj []))) (\<lambda>ap.
     bind (evaluate_content E (JStr (json_dumps E ap)) ''social_media_post'') (\<lambda>e5.
     bind (lift (py_get agent_output ''email'' (JObj []))) (\<lambda>ae.
     bind (evaluate_content E (JStr (json_dumps E ae)) ''email'') (\<lambda>e6.
       returns \<lparr>reflexion_eval = \<lparr>ev_summary = e1, ev_social = e2, ev_email = e3\<rparr>,
                agent_eval = \<lparr>ev_summary = e4, ev_social = e5, ev_email = e6\<rparr>\<rparr>
     ))))))))))))"

definition compare_workflows :: "env \<Rightarrow> blog_post option \<Rightarrow> report io" where
  "compare_workflows E blog_post =
     bind (run_workflow_with_reflexion E blog_post) (\<lambda>reflexion_output.
     bind (run_agent_workflow E blog_post) (\<lambda>agent_output.
       compare_report E reflexion_output agent_output))"

section \<open>Requests\<close>

text \<open>
  The request that each call site sends, as \<^verbatim>\<open>call_llm\<close> logs it. A task forces its
  own schema; the evaluator and the improver pass no tools; the agent passes all five
  schemas and forces none.
\<close>

definition evaluate_request :: "env \<Rightarrow> json \<Rightarrow> string \<Rightarrow> request" where
  "evaluate_request E content content_type =
     \<lparr>req_messages = evaluate_messages E content content_type, req_tools = [],
      req_tool_choice = None\<rparr>"

definition improve_request :: "env \<Rightarrow> json \<Rightarrow> string \<Rightarrow> request" where
  "improve_request E content fb =
     \<lparr>req_messages = improve_messages E content fb, req_tools = [], req_tool_choice = None\<rparr>"

definition extract_request :: "blog_post \<Rightarrow> request" where
  "extract_request p =
     \<lparr>req_messages = extract_messages p, req_tools = [''extract_key_points''],
      req_tool_choice = Some ''extract_key_points''\<rparr>"

definition summary_request :: "env \<Rightarrow> json list \<Rightarrow> request" where
  "summary_request E kps =
     \<lparr>req_messages = summary_messages E kps, req_tools = [''generate_summary''],
      req_tool_choice = Some ''generate_summary''\<rparr>"

definition social_request :: "env \<Rightarrow> string \<Rightarrow> json list \<Rightarrow> request" where
  "social_request E blog_title kps =
     \<lparr>req_messages = social_messages E blog_title kps,
      req_tools = [''create_social_media_posts''],
      req_tool_choice = Some ''create_social_media_posts''\<rparr>"

definition newsletter_request :: "env \<Rightarrow> blog_post \<Rightarrow> json \<Rightarrow> json list \<Rightarrow> request" where
  "newsletter_request E p summary kps =
     \<lparr>req_messages = newsletter_messages E p summary kps,
      req_tools = [''create_email_newsletter''],
      req_tool_choice = Some ''create_email_newsletter''\<rparr>"

definition agent_request :: "message list \<Rightarrow> request" where
  "agent_request messages =
     \<lparr>req_messages = messages, req_tools = define_agent_tools, req_tool_choice = None\<rparr>"

text \<open>Telling the requests of a log apart.\<close>

definition is_evaluate_request :: "request \<Rightarrow> bool" where
  "is_evaluate_request req =
     (case req_messages req of
        [] \<Rightarrow> False
      | m # _ \<Rightarrow> m = Msg ''system'' ''Evaluate quality and give feedback.'')"

definition is_improve_request :: "request \<Rightarrow> bool" where
  "is_improve_request req =
     (case req_messages req of
        [] \<Rightarrow> False
      | m # _ \<Rightarrow> m = Msg ''system'' ''Improve content based on feedback.'')"

definition is_agent_request :: "request \<Rightarrow> bool" where
  "is_agent_request req = (req_tools req = define_agent_tools \<and> req_tool_choice req = None)"

definition tool_request :: "request \<Rightarrow> bool" where
  "tool_request req = (req_tool_choice req \<noteq> None)"

text \<open>
  \<open>sends f m P\<close>: from any log, the computation \<open>f\<close> appends at most \<open>m\<close> requests, all
  of them with the property \<open>P\<close>, and leaves the earlier ones as they are.
\<close>

definition sends :: "'a io \<Rightarrow> nat \<Rightarrow> (request \<Rightarrow> bool) \<Rightarrow> bool" where
  "sends f m P = (\<forall>w. \<exists>new. snd (f w) = w @ new \<and> length new \<le> m \<and> (\<forall>q \<in> set new. P q))"

section \<open>Answers\<close>

text \<open>An answer that fails, or holds no tool invocation.\<close>

definition no_invocation :: "response option \<Rightarrow> bool" where
  "no_invocation res = (case res of None \<Rightarrow> True | Some r \<Rightarrow> tool_calls r = [])"

text \<open>The arguments of the first tool invocation of an answer, parsed; the default without one.\<close>

definition first_arguments :: "env \<Rightarrow> response option \<Rightarrow> json \<Rightarrow> error + json" where
  "first_arguments E res dflt =
     (case res of
        None \<Rightarrow> Inr dflt
      | Some r \<Rightarrow>
          (case tool_calls r of
             [] \<Rightarrow> Inr dflt
           | tc # _ \<Rightarrow>
               (case json_loads E (tc_arguments tc) of
                  None \<Rightarrow> Inl JSONDecodeError
                | Some a \<Rightarrow> Inr a)))"

text \<open>The text of an answer as the improver returns it: \<^verbatim>\<open>message.content\<close>.\<close>

definition text_json :: "response \<Rightarrow> json" where
  "text_json r = (case msg_content r of None \<Rightarrow> JNull | Some t \<Rightarrow> JStr t)"

text \<open>
  The content that the reflexion loop holds after the requests \<open>qs\<close>, the first of them
  being request number \<open>i\<close> of the run: each improvement request replaces the content by
  the text of its answer, and keeps it when the gateway fails.
\<close>

fun held_content :: "env \<Rightarrow> nat \<Rightarrow> json \<Rightarrow> request list \<Rightarrow> json" where
  "held_content E i c [] = c"
| "held_content E i c (q # qs) =
     held_content E (Suc i)
       (if is_improve_request q
        then (case gateway E i q of None \<Rightarrow> c | Some r \<Rightarrow> text_json r)
        else c) qs"

text \<open>\<^verbatim>\<open>d.get(k, default)\<close> on the items of a dictionary.\<close>

definition field_or :: "(string \<times> json) list \<Rightarrow> string \<Rightarrow> json \<Rightarrow> json" where
  "field_or kvs k dflt = (case map_of kvs k of None \<Rightarrow> dflt | Some v \<Rightarrow> v)"

section \<open>The dispatches of an agent run\<close>

text \<open>
  Recording a tool's result in the partial results, under the key of the tool: the
  \<open>summary\<close> entry of the result of \<^verbatim>\<open>generate_summary\<close>, the whole result of
  \<^verbatim>\<open>create_social_media_posts\<close> and of \<^verbatim>\<open>create_email_newsletter\<close>, and nothing
  for any other tool.
\<close>

definition record_result :: "results \<Rightarrow> tool_call \<times> json \<Rightarrow> results" where
  "record_result rs d =
     (if tc_name (fst d) = ''generate_summary'' then
        rs\<lparr>res_summary := (case snd d of JObj kvs \<Rightarrow> field_or kvs ''summary'' JNull | _ \<Rightarrow> JNull)\<rparr>
      else if tc_name (fst d) = ''create_social_media_posts'' then rs\<lparr>res_social_posts := snd d\<rparr>
      else if tc_name (fst d) = ''create_email_newsletter'' then rs\<lparr>res_email := snd d\<rparr>
      else rs)"

text \<open>
  The dispatches of one turn, each with the result of \<^verbatim>\<open>execute_agent_tool\<close>, in
  order; the log after them; and whether the turn went through all its invocations (it
  does not when one of them is \<^verbatim>\<open>finish\<close> or raises). No partial results are kept
  here.
\<close>

fun turn_dispatches :: "env \<Rightarrow> tool_call list \<Rightarrow> log \<Rightarrow> (tool_call \<times> json) list \<times> log \<times> bool" where
  "turn_dispatches E [] w = ([], w, True)"
| "turn_dispatches E (tc # tcs) w =
     (case json_loads E (tc_arguments tc) of
        None \<Rightarrow> ([], w, False)
      | Some a \<Rightarrow>
          if tc_name tc = ''finish'' then ([], w, False)
          else
            (case execute_agent_tool E (tc_name tc) a w of
               (Inl e, w1) \<Rightarrow> ([], w1, False)
             | (Inr v, w1) \<Rightarrow>
                 (case turn_dispatches E tcs w1 of (ds, w2, ok) \<Rightarrow> ((tc, v) # ds, w2, ok))))"

text \<open>The dispatches of a run of at most \<open>n\<close> turns, from the conversation and the log.\<close>

fun agent_dispatches :: "env \<Rightarrow> nat \<Rightarrow> message list \<Rightarrow> log \<Rightarrow> (tool_call \<times> json) list" where
  "agent_dispatches E 0 messages w = []"
| "agent_dispatches E (Suc n) messages w =
     (case gateway E (length w) (agent_request messages) of
        None \<Rightarrow> []
      | Some msg \<Rightarrow>
          if tool_calls msg = [] then []
          else
            (case turn_dispatches E (tool_calls msg) (w @ [agent_request messages]) of
               (ds, w', ok) \<Rightarrow>
                 ds @ (if ok then
                         agent_dispatches E n
                           (messages @ AssistantMsg msg #
                              map (\<lambda>d. tool_message E (fst d) (snd d)) ds) w'
                       else [])))"

section \<open>What the program expects of its collaborators\<close>

text \<open>
  The program checks none of the following. Where a theorem needs one of them, it is a
  hypothesis of the theorem.

  \<open>evaluator_textful\<close>: every answer to an evaluation request carries text. (On an
  answer without text, \<^verbatim>\<open>"good" in feedback\<close> raises TypeError.)
  \<open>improver_textful\<close>: every answer to an improvement request carries text. (An answer
  without text makes \<^verbatim>\<open>None\<close> the content.)
\<close>

definition evaluator_textful :: "env \<Rightarrow> bool" where
  "evaluator_textful E =
     (\<forall>n req r. gateway E n req = Some r \<longrightarrow> is_evaluate_request req \<longrightarrow> msg_content r \<noteq> None)"

definition improver_textful :: "env \<Rightarrow> bool" where
  "improver_textful E =
     (\<forall>n req r. gateway E n req = Some r \<longrightarrow> is_improve_request req \<longrightarrow> msg_content r \<noteq> None)"

text \<open>
  \<open>conforming\<close>: the sample blog post loads, and the argument text of every tool
  invocation that the gateway returns parses to a mapping whose \<open>key_points\<close>, when
  present, is a list. Nothing is asked of texts that the gateway never returns: the
  parser may fail on them. (A missing post makes the tools raise TypeError, an argument
  text that is no JSON raises JSONDecodeError, arguments that are no mapping raise
  AttributeError, and key points that are a number, a truth value or \<^verbatim>\<open>None\<close> raise
  TypeError when the prompt is built.)
\<close>

definition args_ok :: "json \<Rightarrow> bool" where
  "args_ok a = (\<exists>kvs. a = JObj kvs \<and> (\<forall>v. map_of kvs ''key_points'' = Some v \<longrightarrow> (\<exists>xs. v = JArr xs)))"

definition conforming :: "env \<Rightarrow> bool" where
  "conforming E =
     (sample_blog_post E \<noteq> None \<and>
      (\<forall>n req r. gateway E n req = Some r \<longrightarrow>
         (\<forall>tc \<in> set (tool_calls r). \<exists>a. json_loads E (tc_arguments tc) = Some a \<and> args_ok a)))"

text \<open>Every agent request is answered; no answer names the tool; no answer holds more than \<open>m\<close> tool invocations.\<close>

definition answered :: "env \<Rightarrow> bool" where
  "answered E = (\<forall>n req. is_agent_request req \<longrightarrow> gateway E n req \<noteq> None)"

definition never_called :: "env \<Rightarrow> string \<Rightarrow> bool" where
  "never_called E tool =
     (\<forall>n req r. gateway E n req = Some r \<longrightarrow> (\<forall>tc \<in> set (tool_calls r). tc_name tc \<noteq> tool))"

definition invocations_bounded :: "env \<Rightarrow> nat \<Rightarrow> bool" where
  "invocations_bounded E m =
     (\<forall>i req r. gateway E i req = Some r \<longrightarrow> length (tool_calls r) \<le> m)"

section \<open>Sample environments\<close>

definition sample_post :: blog_post where
  "sample_post = \<lparr>post_title = ''T'', post_content = ''C''\<rparr>"

text \<open>A gateway that always fails, without and with a sample blog post.\<close>

definition silent_env :: env where
  "silent_env = \<lparr>gateway = (\<lambda>n req. None), sample_blog_post = None,
     json_loads = (\<lambda>s. None), json_dumps = (\<lambda>v. []), py_repr = (\<lambda>v. [])\<rparr>"

definition offline_env :: env where
  "offline_env =
     \<lparr>gateway = (\<lambda>n req. None), sample_blog_post = Some sample_post,
      json_loads = (\<lambda>s. Some (JObj [])), json_dumps = (\<lambda>v. ''{}''),
      py_repr = (\<lambda>v. ''None'')\<rparr>"

text \<open>A model whose answers carry neither text nor tool invocations.\<close>

definition mute_env :: env where
  "mute_env =
     \<lparr>gateway = (\<lambda>n req. Some \<lparr>msg_content = None, tool_calls = []\<rparr>),
      sample_blog_post = None,
      json_loads = (\<lambda>s. None), json_dumps = (\<lambda>v. []), py_repr = (\<lambda>v. [])\<rparr>"

text \<open>A model that is never satisfied, and one that always is.\<close>

definition critic_env :: env where
  "critic_env =
     \<lparr>gateway = (\<lambda>n req. Some \<lparr>msg_content = Some ''needs work'', tool_calls = []\<rparr>),
      sample_blog_post = Some sample_post,
      json_loads = (\<lambda>s. Some (JObj [])), json_dumps = (\<lambda>v. ''{}''),
      py_repr = (\<lambda>v. ''None'')\<rparr>"

definition praise_env :: env where
  "praise_env =
     \<lparr>gateway = (\<lambda>n req. Some \<lparr>msg_content = Some ''good work'', tool_calls = []\<rparr>),
      sample_blog_post = Some sample_post,
      json_loads = (\<lambda>s. Some (JObj [])), json_dumps = (\<lambda>v. ''{}''),
      py_repr = (\<lambda>v. ''None'')\<rparr>"

definition newsletter_call :: tool_call where
  "newsletter_call =
     \<lparr>tc_id = ''call_n'', tc_name = ''create_email_newsletter'', tc_arguments = ''{}''\<rparr>"

definition extract_call :: tool_call where
  "extract_call =
     \<lparr>tc_id = ''call_x'', tc_name = ''extract_key_points'', tc_arguments = ''{}''\<rparr>"

definition done_call :: tool_call where
  "done_call = \<lparr>tc_id = ''call_f'', tc_name = ''finish'', tc_arguments = ''DONE''\<rparr>"

definition done_arguments :: json where
  "done_arguments =
     JObj [(''summary'', JStr ''S''), (''social_posts'', JObj []), (''email'', JObj [])]"

text \<open>
  A model that answers every agent request with the given tool invocations; requests of
  the tools themselves fail. The argument text \<open>DONE\<close> stands for the JSON text of
  \<open>done_arguments\<close>, any other for \<^verbatim>\<open>{}\<close>.
\<close>

definition scripted_env :: "tool_call list \<Rightarrow> env" where
  "scripted_env tcs =
     \<lparr>gateway = (\<lambda>n req. if req_tool_choice req = None \<and> req_tools req \<noteq> []
                          then Some \<lparr>msg_content = None, tool_calls = tcs\<rparr> else None),
      sample_blog_post = Some sample_post,
      json_loads = (\<lambda>s. if s = ''DONE'' then Some done_arguments else Some (JObj [])),
      json_dumps = (\<lambda>v. ''{}''),
      py_repr = (\<lambda>v. ''None'')\<rparr>"

definition summary_call :: tool_call where
  "summary_call =
     \<lparr>tc_id = ''call_s'', tc_name = ''generate_summary'', tc_arguments = ''{}''\<rparr>"

text \<open>
  The stub gateway of the specification's end-to-end property: key points a and b, the
  summary S, three social posts, a newsletter, and the feedback "good" for every
  evaluation; every agent request is answered with the given tool invocations. The
  argument texts \<open>KEY_POINTS\<close>, \<open>SUMMARY\<close>, \<open>SOCIAL\<close> and \<open>EMAIL\<close> stand for the JSON
  texts of these results; the parser fails on any other text but \<^verbatim>\<open>{}\<close>.
  \<open>stub_dumps\<close> and \<open>stub_repr\<close> are \<^verbatim>\<open>json.dumps\<close> and \<^verbatim>\<open>str\<close> on \<^verbatim>\<open>None\<close> and
  on the empty mapping; how they render other values plays no role and is left as dots.
\<close>

definition stub_loads :: "string \<Rightarrow> json option" where
  "stub_loads s =
     (if s = ''KEY_POINTS'' then Some (JObj [(''key_points'', JArr [JStr ''a'', JStr ''b''])])
      else if s = ''SUMMARY'' then Some (JObj [(''summary'', JStr ''S'')])
      else if s = ''SOCIAL'' then
        Some (JObj [(''twitter'', JStr ''x''), (''linkedin'', JStr ''y''),
                    (''facebook'', JStr ''z'')])
      else if s = ''EMAIL'' then Some (JObj [(''subject'', JStr ''Sub''), (''body'', JStr ''Body'')])
      else if s = ''{}'' then Some (JObj [])
      else None)"

definition stub_dumps :: "json \<Rightarrow> string" where
  "stub_dumps v = (case v of JNull \<Rightarrow> ''null'' | JObj [] \<Rightarrow> ''{}'' | _ \<Rightarrow> ''...'')"

definition stub_repr :: "json \<Rightarrow> string" where
  "stub_repr v = (case v of JNull \<Rightarrow> ''None'' | _ \<Rightarrow> ''...'')"

definition stub_invocation :: "string \<Rightarrow> string \<Rightarrow> response" where
  "stub_invocation tool arguments =
     \<lparr>msg_content = None,
      tool_calls = [\<lparr>tc_id = ''call_1'', tc_name = tool, tc_arguments = arguments\<rparr>]\<rparr>"

definition stub_gateway :: "tool_call list \<Rightarrow> nat \<Rightarrow> request \<Rightarrow> response option" where
  "stub_gateway tcs n req =
     (if req_tool_choice req = Some ''extract_key_points'' then
        Some (stub_invocation ''extract_key_points'' ''KEY_POINTS'')
      else if req_tool_choice req = Some ''generate_summary'' then
        Some (stub_invocation ''generate_summary'' ''SUMMARY'')
      else if req_tool_choice req = Some ''create_social_media_posts'' then
        Some (stub_invocation ''create_social_media_posts'' ''SOCIAL'')
      else if req_tool_choice req = Some ''create_email_newsletter'' then
        Some (stub_invocation ''create_email_newsletter'' ''EMAIL'')
      else if req_tool_choice req = None \<and> req_tools req = [] then
        Some \<lparr>msg_content = Some ''good'', tool_calls = []\<rparr>
      else if req_tool_choice req = None then Some \<lparr>msg_content = None, tool_calls = tcs\<rparr>
      else None)"

definition stub_env :: "tool_call list \<Rightarrow> env" where
  "stub_env tcs =
     \<lparr>gateway = stub_gateway tcs, sample_blog_post = Some sample_post,
      json_loads = stub_loads, json_dumps = stub_dumps, py_repr = stub_repr\<rparr>"

section \<open>The evaluator\<close>

lemmas io_defs = bind_def returns_def raise_def lift_def call_llm_def

lemma contains_sublist: "contains needle hay = sublist needle hay"
  by (induction hay) (simp_all add: sublist_Cons_right)

lemma evaluate_content_cases:
  "evaluate_content E c ct w =
     ((case gateway E (length w) (evaluate_request E c ct) of
         None \<Rightarrow> Inr \<lparr>quality_score = 0.5, feedback = ''No evaluation''\<rparr>
       | Some r \<Rightarrow>
           (case msg_content r of
              None \<Rightarrow> Inl TypeError
            | Some t \<Rightarrow> Inr \<lparr>quality_score = (if sublist ''good'' t then 0.9 else 0.6), feedback = t\<rparr>)),
      w @ [evaluate_request E c ct])"
  by (simp add: evaluate_content_def evaluate_request_def io_defs contains_sublist
           split: option.splits)

lemma evaluate_content_textless:
  "gateway E (length w) (evaluate_request E c ct) = Some r \<Longrightarrow> msg_content r = None \<Longrightarrow>
   evaluate_content E c ct w = (Inl TypeError, w @ [evaluate_request E c ct])"
  by (simp add: evaluate_content_cases)

lemma no_good: "\<not> sublist ''good'' ''No evaluation''"
  unfolding contains_sublist [symmetric] by simp

text \<open>
  Claim C7. When the gateway fails on the evaluator's request, \<^verbatim>\<open>evaluate_content\<close>
  returns the fixed result with score 0.5 and feedback "No evaluation", for every content
  and content type; it raises nothing, and the one request it sent is in the log.
\<close>

theorem evaluate_content_gateway_failure:
  "gateway E (length w) (evaluate_request E content content_type) = None \<Longrightarrow>
   evaluate_content E content content_type w =
     (Inr \<lparr>quality_score = 0.5, feedback = ''No evaluation''\<rparr>,
      w @ [evaluate_request E content content_type])"
  by (simp add: evaluate_content_cases)

theorem evaluate_content_gateway_failure_witness:
  "gateway silent_env (length []) (evaluate_request silent_env (JStr ''draft'') ''summary'') = None \<and>
   evaluate_content silent_env (JStr ''draft'') ''summary'' [] =
     (Inr \<lparr>quality_score = 0.5, feedback = ''No evaluation''\<rparr>,
      [evaluate_request silent_env (JStr ''draft'') ''summary''])"
  using evaluate_content_gateway_failure [of silent_env "[]" "JStr ''draft''" "''summary''"]
  by (simp add: silent_env_def)

text \<open>
  Claim C10. When the evaluator's request is answered with the text \<open>t\<close>, the score is
  0.9 if "good" occurs in \<open>t\<close> and 0.6 otherwise, a function of \<open>t\<close> alone. Every result
  that \<^verbatim>\<open>evaluate_content\<close> returns has its score among 0.5, 0.6 and 0.9, and the
  score reaches the threshold 0.8 exactly when the feedback returned contains "good".
\<close>

theorem evaluate_content_score:
  "(\<forall>r t. gateway E (length w) (evaluate_request E content content_type) = Some r \<longrightarrow>
        msg_content r = Some t \<longrightarrow>
        fst (evaluate_content E content content_type w) =
          Inr \<lparr>quality_score = (if sublist ''good'' t then 0.9 else 0.6), feedback = t\<rparr>) \<and>
   (\<forall>ev. fst (evaluate_content E content content_type w) = Inr ev \<longrightarrow>
        quality_score ev \<in> {0.5, 0.6, 0.9} \<and>
        (quality_score ev \<ge> 0.8 \<longleftrightarrow> sublist ''good'' (feedback ev)))"
  using no_good by (auto simp add: evaluate_content_cases split: option.splits)

section \<open>The reflexion loop\<close>

lemma improve_content_cases:
  "improve_content E c fb ct w =
     (Inr (case gateway E (length w) (improve_request E c fb) of
             None \<Rightarrow> c | Some r \<Rightarrow> text_json r),
      w @ [improve_request E c fb])"
  by (simp add: improve_content_def improve_request_def io_defs text_json_def
           split: option.splits)

lemma is_evaluate_request [simp]:
  "is_evaluate_request (evaluate_request E c ct)" "\<not> is_improve_request (evaluate_request E c ct)"
  by (simp_all add: is_evaluate_request_def is_improve_request_def evaluate_request_def evaluate_messages_def)

lemma is_improve_request [simp]:
  "is_improve_request (improve_request E c fb)" "\<not> is_evaluate_request (improve_request E c fb)"
  by (simp_all add: is_evaluate_request_def is_improve_request_def improve_request_def improve_messages_def)

lemma reflexion_loop_log:
  "\<exists>new. snd (reflexion_loop E n ct c w) = w @ new
        \<and> length (filter is_evaluate_request new) \<le> n
        \<and> length (filter is_improve_request new) \<le> n
        \<and> (\<forall>q \<in> set new. is_evaluate_request q \<or> is_improve_request q)"
proof (induction n arbitrary: c w)
  case 0
  show ?case by (simp add: returns_def)
next
  case (Suc n)
  let ?ev = "evaluate_request E c ct"
  show ?case
  proof (cases "fst (evaluate_content E c ct w)")
    case (Inl e)
    then have "snd (reflexion_loop E (Suc n) ct c w) = w @ [?ev]"
      by (simp add: bind_def evaluate_content_cases)
    then show ?thesis by simp
  next
    case (Inr ev)
    show ?thesis
    proof (cases "quality_score ev \<ge> 0.8")
      case True
      with Inr have "snd (reflexion_loop E (Suc n) ct c w) = w @ [?ev]"
        by (simp add: bind_def returns_def evaluate_content_cases)
      then show ?thesis by simp
    next
      case False
      let ?im = "improve_request E c (feedback ev)"
      obtain c' where c': "improve_content E c (feedback ev) ct (w @ [?ev]) = (Inr c', w @ [?ev, ?im])"
        by (simp add: improve_content_cases)
      from Inr False c' have step: "reflexion_loop E (Suc n) ct c w = reflexion_loop E n ct c' (w @ [?ev, ?im])"
        by (simp add: bind_def evaluate_content_cases)
      from Suc.IH [of c' "w @ [?ev, ?im]"] obtain new where
        new: "snd (reflexion_loop E n ct c' (w @ [?ev, ?im])) = (w @ [?ev, ?im]) @ new"
          "length (filter is_evaluate_request new) \<le> n"
          "length (filter is_improve_request new) \<le> n"
          "\<forall>q \<in> set new. is_evaluate_request q \<or> is_improve_request q"
        by blast
      show ?thesis
        by (rule exI [of _ "[?ev, ?im] @ new"]) (use step new in auto)
    qed
  qed
qed

lemma evaluate_content_textful:
  assumes "evaluator_textful E"
  shows "\<exists>ev. evaluate_content E c ct w = (Inr ev, w @ [evaluate_request E c ct])"
proof (cases "gateway E (length w) (evaluate_request E c ct)")
  case None
  then show ?thesis by (simp add: evaluate_content_cases)
next
  case (Some r)
  with assms obtain t where "msg_content r = Some t"
    unfolding evaluator_textful_def using is_evaluate_request(1) by fastforce
  with Some show ?thesis by (simp add: evaluate_content_cases)
qed

lemma reflexion_loop_returns:
  "evaluator_textful E \<Longrightarrow> \<exists>c'. fst (reflexion_loop E n ct c w) = Inr c'"
proof (induction n arbitrary: c w)
  case 0
  show ?case by (simp add: returns_def)
next
  case (Suc n)
  let ?ev = "evaluate_request E c ct"
  from evaluate_content_textful [OF Suc.prems, of c ct w] obtain ev where
    ev: "evaluate_content E c ct w = (Inr ev, w @ [?ev])" by blast
  show ?case
  proof (cases "quality_score ev \<ge> 0.8")
    case True
    with ev show ?thesis
      by (simp add: bind_def returns_def)
  next
    case False
    let ?im = "improve_request E c (feedback ev)"
    define c' where
      "c' = (case gateway E (length (w @ [?ev])) ?im of None \<Rightarrow> c | Some r \<Rightarrow> text_json r)"
    from ev False have step:
      "reflexion_loop E (Suc n) ct c w = reflexion_loop E n ct c' (w @ [?ev, ?im])"
      by (simp add: bind_def improve_content_cases c'_def)
    from Suc.IH [OF Suc.prems, of c' "w @ [?ev, ?im]"] step show ?thesis by auto
  qed
qed

lemma held_content_nonnull:
  "improver_textful E \<Longrightarrow> c \<noteq> JNull \<Longrightarrow> held_content E i c qs \<noteq> JNull"
proof (induction qs arbitrary: i c)
  case Nil
  then show ?case by simp
next
  case (Cons q qs)
  define c' where "c' = (if is_improve_request q
        then (case gateway E i q of None \<Rightarrow> c | Some r \<Rightarrow> text_json r) else c)"
  have "c' \<noteq> JNull"
  proof (cases "is_improve_request q")
    case False
    with Cons.prems(2) show ?thesis by (simp add: c'_def)
  next
    case True
    show ?thesis
    proof (cases "gateway E i q")
      case None
      with True Cons.prems(2) show ?thesis by (simp add: c'_def)
    next
      case (Some r)
      with True Cons.prems(1) obtain t where "msg_content r = Some t"
        unfolding improver_textful_def by fastforce
      with True Some show ?thesis by (simp add: c'_def text_json_def)
    qed
  qed
  from Cons.IH [OF Cons.prems(1) this, of "Suc i"] show ?case
    by (simp add: c'_def)
qed

lemma reflexion_loop_held:
  "fst (reflexion_loop E n ct c w) = Inr c' \<Longrightarrow>
   c' = held_content E (length w) c (drop (length w) (snd (reflexion_loop E n ct c w)))"
proof (induction n arbitrary: c w)
  case 0
  then show ?case by (simp add: returns_def)
next
  case (Suc n)
  let ?ev = "evaluate_request E c ct"
  show ?case
  proof (cases "fst (evaluate_content E c ct w)")
    case (Inl e)
    with Suc.prems show ?thesis
      by (simp add: bind_def evaluate_content_cases)
  next
    case (Inr ev)
    show ?thesis
    proof (cases "quality_score ev \<ge> 0.8")
      case True
      with Inr Suc.prems show ?thesis
        by (simp add: bind_def returns_def evaluate_content_cases)
    next
      case False
      let ?im = "improve_request E c (feedback ev)"
      define d where "d = (case gateway E (Suc (length w)) ?im of None \<Rightarrow> c | Some r \<Rightarrow> text_json r)"
      from Inr False have step:
        "reflexion_loop E (Suc n) ct c w = reflexion_loop E n ct d (w @ [?ev, ?im])"
        by (simp add: bind_def evaluate_content_cases improve_content_cases d_def)
      from reflexion_loop_log [of E n ct d "w @ [?ev, ?im]"] obtain new where
        new: "snd (reflexion_loop E n ct d (w @ [?ev, ?im])) = (w @ [?ev, ?im]) @ new"
        by blast
      from Suc.prems step have "fst (reflexion_loop E n ct d (w @ [?ev, ?im])) = Inr c'"
        by simp
      from Suc.IH [OF this] new have "c' = held_content E (Suc (Suc (length w))) d new"
        by simp
      with step new show ?thesis by (simp add: d_def)
    qed
  qed
qed

text \<open>
  Claim C1, as amended. For every attempt budget and every generator, the wrapper runs
  the generator once and then sends at most \<open>max_attempts\<close> evaluation requests and at
  most \<open>max_attempts\<close> improvement requests, and nothing else; the function is total.
  When the generator returns and every answer to an evaluation request carries text, the
  wrapper returns the content held after the last improvement. That content is not
  \<^verbatim>\<open>None\<close> when the generated content is not and every answer to an improvement
  request carries text.
\<close>

theorem generate_with_reflexion_bounded:
  "\<exists>new. snd (generate_with_reflexion E generator_func max_attempts content_type w) =
            snd (generator_func w) @ new
      \<and> length (filter is_evaluate_request new) \<le> nat max_attempts
      \<and> length (filter is_improve_request new) \<le> nat max_attempts
      \<and> (\<forall>q \<in> set new. is_evaluate_request q \<or> is_improve_request q)
      \<and> (\<forall>c0. fst (generator_func w) = Inr c0 \<longrightarrow> evaluator_textful E \<longrightarrow>
            fst (generate_with_reflexion E generator_func max_attempts content_type w) =
              Inr (held_content E (length (snd (generator_func w))) c0 new))
      \<and> (\<forall>c0. fst (generator_func w) = Inr c0 \<longrightarrow> improver_textful E \<longrightarrow> c0 \<noteq> JNull \<longrightarrow>
            held_content E (length (snd (generator_func w))) c0 new \<noteq> JNull)"
proof (cases "generator_func w")
  case (Pair g w0)
  show ?thesis
  proof (cases g)
    case (Inl e)
    with Pair have "snd (generate_with_reflexion E generator_func max_attempts content_type w) = w0"
      by (simp add: generate_with_reflexion_def bind_def)
    with Pair Inl show ?thesis by simp
  next
    case (Inr c0)
    with Pair have run: "generate_with_reflexion E generator_func max_attempts content_type w =
        reflexion_loop E (nat max_attempts) content_type c0 w0"
      by (simp add: generate_with_reflexion_def bind_def)
    from reflexion_loop_log [of E "nat max_attempts" content_type c0 w0] obtain new where
      new: "snd (reflexion_loop E (nat max_attempts) content_type c0 w0) = w0 @ new"
        "length (filter is_evaluate_request new) \<le> nat max_attempts"
        "length (filter is_improve_request new) \<le> nat max_attempts"
        "\<forall>q \<in> set new. is_evaluate_request q \<or> is_improve_request q"
      by blast
    have ret: "fst (reflexion_loop E (nat max_attempts) content_type c0 w0) =
          Inr (held_content E (length w0) c0 new)"
      if "evaluator_textful E"
    proof -
      from reflexion_loop_returns [OF that, of "nat max_attempts" content_type c0 w0]
      obtain c' where c': "fst (reflexion_loop E (nat max_attempts) content_type c0 w0) = Inr c'"
        by blast
      from reflexion_loop_held [OF c'] new(1) have "c' = held_content E (length w0) c0 new"
        by simp
      with c' show ?thesis by simp
    qed
    have nn: "held_content E (length w0) c0 new \<noteq> JNull"
      if "improver_textful E" "c0 \<noteq> JNull"
      using held_content_nonnull [OF that] .
    show ?thesis
      by (rule exI [of _ new]) (use Pair Inr run new ret nn in simp)
  qed
qed

text \<open>
  An answer without text to the first evaluation request: the wrapper, with three
  attempts and a generator that returns a draft, raises TypeError instead of returning
  content.
\<close>

theorem generate_with_reflexion_textless_counterexample:
  "generate_with_reflexion mute_env (returns (JStr ''draft'')) 3 ''summary'' [] =
     (Inl TypeError, [evaluate_request mute_env (JStr ''draft'') ''summary''])"
  by (simp add: generate_with_reflexion_def bind_def returns_def numeral_3_eq_3
        evaluate_content_cases mute_env_def)

text \<open>
  Claim C3. With at least one attempt, a generator that returns \<open>c0\<close> and a first
  evaluation with score \<open>s\<close>: the wrapper stops right after that evaluation exactly when
  \<open>s \<ge> 0.8\<close>; it then returns \<open>c0\<close>, having run the generator once and sent one
  evaluation request and no improvement request. Otherwise the improvement request
  follows.
\<close>

theorem reflexion_first_evaluation:
  assumes "0 < max_attempts"
    and "generator_func w = (Inr c0, w0)"
    and "fst (evaluate_content E c0 content_type w0) = Inr ev"
  shows "(snd (generate_with_reflexion E generator_func max_attempts content_type w) =
            w0 @ [evaluate_request E c0 content_type]
          \<longleftrightarrow> quality_score ev \<ge> 0.8)
       \<and> (quality_score ev \<ge> 0.8 \<longrightarrow>
            fst (generate_with_reflexion E generator_func max_attempts content_type w) = Inr c0)
       \<and> (\<not> quality_score ev \<ge> 0.8 \<longrightarrow>
            (\<exists>rest. snd (generate_with_reflexion E generator_func max_attempts content_type w) =
               w0 @ [evaluate_request E c0 content_type, improve_request E c0 (feedback ev)] @ rest))"
proof -
  from assms(1) obtain n where n: "nat max_attempts = Suc n"
    by (cases "nat max_attempts") auto
  let ?ev = "evaluate_request E c0 content_type"
  let ?im = "improve_request E c0 (feedback ev)"
  from assms(2) n have run:
    "generate_with_reflexion E generator_func max_attempts content_type w =
       reflexion_loop E (Suc n) content_type c0 w0"
    by (simp add: generate_with_reflexion_def bind_def)
  show ?thesis
  proof (cases "quality_score ev \<ge> 0.8")
    case True
    with assms(3) have "reflexion_loop E (Suc n) content_type c0 w0 = (Inr c0, w0 @ [?ev])"
      by (simp add: bind_def returns_def evaluate_content_cases)
    with run True show ?thesis by simp
  next
    case False
    define d where "d = (case gateway E (Suc (length w0)) ?im of None \<Rightarrow> c0 | Some r \<Rightarrow> text_json r)"
    from assms(3) False have step:
      "reflexion_loop E (Suc n) content_type c0 w0 = reflexion_loop E n content_type d (w0 @ [?ev, ?im])"
      by (simp add: bind_def evaluate_content_cases improve_content_cases d_def)
    from reflexion_loop_log [of E n content_type d "w0 @ [?ev, ?im]"] obtain new where
      "snd (reflexion_loop E n content_type d (w0 @ [?ev, ?im])) = (w0 @ [?ev, ?im]) @ new"
      by blast
    with run step False show ?thesis by simp
  qed
qed

section \<open>Content tools\<close>

lemmas task_defs = task_extract_key_points_def task_generate_summary_def
  task_create_social_media_posts_def task_create_email_newsletter_def loads_def

lemma task_extract_key_points_cases:
  "task_extract_key_points E (Some p) w =
     ((case gateway E (length w) (extract_request p) of
         None \<Rightarrow> Inr (JArr [])
       | Some r \<Rightarrow>
           (case tool_calls r of
              [] \<Rightarrow> Inr (JArr [])
            | tc # _ \<Rightarrow>
                (case json_loads E (tc_arguments tc) of
                   None \<Rightarrow> Inl JSONDecodeError
                 | Some a \<Rightarrow> py_get a ''key_points'' (JArr [])))),
      w @ [extract_request p])"
  by (simp add: task_defs extract_request_def io_defs split: option.splits list.splits)

lemma task_generate_summary_cases:
  "py_iter key_points = Inr kps \<Longrightarrow>
   task_generate_summary E key_points w =
     ((case gateway E (length w) (summary_request E kps) of
         None \<Rightarrow> Inr (JStr [])
       | Some r \<Rightarrow>
           (case tool_calls r of
              [] \<Rightarrow> Inr (JStr [])
            | tc # _ \<Rightarrow>
                (case json_loads E (tc_arguments tc) of
                   None \<Rightarrow> Inl JSONDecodeError
                 | Some a \<Rightarrow> py_get a ''summary'' (JStr [])))),
      w @ [summary_request E kps])"
  by (simp add: task_defs summary_request_def io_defs split: option.splits list.splits)

lemma task_create_social_media_posts_cases:
  "py_iter key_points = Inr kps \<Longrightarrow>
   task_create_social_media_posts E key_points blog_title w =
     (first_arguments E (gateway E (length w) (social_request E blog_title kps)) (JObj []),
      w @ [social_request E blog_title kps])"
  by (simp add: task_defs social_request_def io_defs first_arguments_def
           split: option.splits list.splits)

lemma task_create_email_newsletter_cases:
  "py_iter key_points = Inr kps \<Longrightarrow>
   task_create_email_newsletter E (Some p) summary key_points w =
     (first_arguments E (gateway E (length w) (newsletter_request E p summary kps)) (JObj []),
      w @ [newsletter_request E p summary kps])"
  by (simp add: task_defs newsletter_request_def io_defs first_arguments_def
           split: option.splits list.splits)

lemma task_raises:
  "task_extract_key_points E None w = (Inl TypeError, w)"
  "py_iter key_points = Inl e \<Longrightarrow> task_generate_summary E key_points w = (Inl e, w)"
  "py_iter key_points = Inl e \<Longrightarrow> task_create_social_media_posts E key_points t w = (Inl e, w)"
  "task_create_email_newsletter E None s key_points w = (Inl TypeError, w)"
  "py_iter key_points = Inl e \<Longrightarrow> task_create_email_newsletter E (Some p) s key_points w = (Inl e, w)"
  by (simp_all add: task_defs io_defs)

text \<open>
  Claim C8. Each of the four content tools, once it sends its single request, returns its
  empty default when the gateway fails or answers without a tool invocation: the empty
  list for key points, the empty string for the summary, the empty mapping for social
  posts and for the newsletter. It raises nothing.
\<close>

theorem content_tools_default:
  "(no_invocation (gateway E (length w) (extract_request p)) \<longrightarrow>
      task_extract_key_points E (Some p) w = (Inr (JArr []), w @ [extract_request p]))
 \<and> (\<forall>kps. py_iter key_points = Inr kps \<longrightarrow>
      no_invocation (gateway E (length w) (summary_request E kps)) \<longrightarrow>
      task_generate_summary E key_points w = (Inr (JStr []), w @ [summary_request E kps]))
 \<and> (\<forall>kps. py_iter key_points = Inr kps \<longrightarrow>
      no_invocation (gateway E (length w) (social_request E blog_title kps)) \<longrightarrow>
      task_create_social_media_posts E key_points blog_title w =
        (Inr (JObj []), w @ [social_request E blog_title kps]))
 \<and> (\<forall>kps. py_iter key_points = Inr kps \<longrightarrow>
      no_invocation (gateway E (length w) (newsletter_request E p summary kps)) \<longrightarrow>
      task_create_email_newsletter E (Some p) summary key_points w =
        (Inr (JObj []), w @ [newsletter_request E p summary kps]))"
  by (auto simp add: no_invocation_def task_extract_key_points_cases
        task_generate_summary_cases task_create_social_media_posts_cases
        task_create_email_newsletter_cases first_arguments_def split: option.splits)

section \<open>Requests sent by a dispatch\<close>

lemma sends_returns [intro!]: "sends (returns x) m P"
  by (simp add: sends_def returns_def)

lemma sends_raise [intro!]: "sends (raise e) m P"
  by (simp add: sends_def raise_def)

lemma sends_lift [intro!]: "sends (lift r) m P"
  by (simp add: sends_def lift_def)

lemma sends_mono: "sends f m P \<Longrightarrow> m \<le> n \<Longrightarrow> sends f n P"
  unfolding sends_def by (meson le_trans)

lemma sends_bind:
  assumes "sends a m P" and "\<And>x. sends (f x) n P"
  shows "sends (bind a f) (m + n) P"
  unfolding sends_def
proof
  fix w
  from assms(1) obtain n1 where n1: "snd (a w) = w @ n1" "length n1 \<le> m" "\<forall>q\<in>set n1. P q"
    unfolding sends_def by blast
  show "\<exists>new. snd (bind a f w) = w @ new \<and> length new \<le> m + n \<and> (\<forall>q\<in>set new. P q)"
  proof (cases "fst (a w)")
    case (Inl e)
    then have "snd (bind a f w) = snd (a w)"
      by (cases "a w") (simp add: bind_def)
    with n1 show ?thesis by auto
  next
    case (Inr x)
    from assms(2) [of x] obtain n2 where
      n2: "snd (f x (w @ n1)) = (w @ n1) @ n2" "length n2 \<le> n" "\<forall>q\<in>set n2. P q"
      unfolding sends_def by blast
    from Inr n1 have "bind a f w = f x (w @ n1)"
      by (cases "a w") (simp add: bind_def)
    with n1 n2 show ?thesis
      by (intro exI [of _ "n1 @ n2"]) auto
  qed
qed

lemma sends_call_llm:
  "P \<lparr>req_messages = ms, req_tools = ts, req_tool_choice = tc\<rparr> \<Longrightarrow>
   sends (call_llm E ms ts tc) 1 P"
  by (simp add: sends_def call_llm_def Let_def)

lemma tool_request [simp]:
  "tool_request (extract_request p)" "tool_request (summary_request E kps)"
  "tool_request (social_request E t kps)" "tool_request (newsletter_request E p s kps)"
  by (simp_all add: tool_request_def extract_request_def summary_request_def
        social_request_def newsletter_request_def)

lemma sends_loads [intro!]: "sends (loads E s) m P"
  by (auto simp add: loads_def split: option.splits)

lemma sends_task_extract: "sends (task_extract_key_points E bp) (Suc 0) tool_request"
  by (cases bp) (simp_all add: sends_def task_raises task_extract_key_points_cases)

lemma sends_task_summary: "sends (task_generate_summary E kp) (Suc 0) tool_request"
  by (cases "py_iter kp") (simp_all add: sends_def task_raises task_generate_summary_cases)

lemma sends_task_social: "sends (task_create_social_media_posts E kp t) (Suc 0) tool_request"
  by (cases "py_iter kp")
     (simp_all add: sends_def task_raises task_create_social_media_posts_cases)

lemma sends_task_newsletter: "sends (task_create_email_newsletter E bp s kp) (Suc 0) tool_request"
  by (cases bp; cases "py_iter kp")
     (simp_all add: sends_def task_raises task_create_email_newsletter_cases)

lemma sends_key_points_or_extract: "sends (key_points_or_extract E bp kp) (Suc 0) tool_request"
  unfolding key_points_or_extract_def
  by (cases "truthy kp") (auto intro: sends_task_extract)

lemma sends_execute_agent_tool: "sends (execute_agent_tool E tool_name arguments) 3 tool_request"
proof -
  have s0: "sends (lift r) 0 tool_request" for r :: "error + json" by blast
  have A: "sends (bind (task_extract_key_points E bp) (\<lambda>kp. returns (JObj [(''key_points'', kp)]))) 3 tool_request" for bp
    by (rule sends_mono [OF sends_bind [OF sends_task_extract, of _ 0]]) auto
  have B: "sends (bind (lift (py_get arguments ''key_points'' JNull)) (\<lambda>key_points.
        bind (key_points_or_extract E bp key_points) (\<lambda>key_points.
        bind (task_generate_summary E key_points) (\<lambda>s.
          returns (JObj [(''summary'', s)]))))) 3 tool_request" for bp
    by (rule sends_mono [OF sends_bind [OF s0 sends_bind [OF sends_key_points_or_extract
          sends_bind [OF sends_task_summary, of _ 0]]]]) auto
  have C: "sends (bind (lift (py_get arguments ''key_points'' JNull)) (\<lambda>key_points.
        bind (key_points_or_extract E bp key_points) (\<lambda>key_points.
          case bp of
            None \<Rightarrow> raise TypeError
          | Some p \<Rightarrow> task_create_social_media_posts E key_points (post_title p)))) 3 tool_request" for bp
    by (rule sends_mono [OF sends_bind [OF s0 sends_bind [OF sends_key_points_or_extract, of _ "Suc 0"]]])
       (auto split: option.splits intro: sends_task_social)
  have D: "sends (bind (lift (py_get arguments ''key_points'' JNull)) (\<lambda>key_points.
        bind (lift (py_get arguments ''summary'' JNull)) (\<lambda>summary.
        bind (key_points_or_extract E bp key_points) (\<lambda>key_points.
        bind (if \<not> truthy summary then task_generate_summary E key_points
              else returns summary) (\<lambda>summary.
          task_create_email_newsletter E bp summary key_points))))) 3 tool_request" for bp
    by (rule sends_mono [OF sends_bind [OF s0 sends_bind [OF s0 sends_bind [OF sends_key_points_or_extract
          sends_bind [of _ "Suc 0" _ _ "Suc 0"]]]]])
       (auto intro: sends_task_summary sends_task_newsletter)
  show ?thesis
    unfolding execute_agent_tool_def Let_def
    using A B C D by auto
qed

section \<open>Dispatch in a conforming environment\<close>

lemma conforming_loads:
  assumes "conforming E" and "gateway E n req = Some r" and "tc \<in> set (tool_calls r)"
  obtains kvs where "json_loads E (tc_arguments tc) = Some (JObj kvs)"
    and "\<And>v. map_of kvs ''key_points'' = Some v \<Longrightarrow> \<exists>xs. v = JArr xs"
proof -
  from assms obtain a where "json_loads E (tc_arguments tc) = Some a" "args_ok a"
    unfolding conforming_def by blast
  then show ?thesis
    using that unfolding args_ok_def by blast
qed

lemma conforming_first_arguments:
  assumes "conforming E"
  shows "\<exists>kvs. first_arguments E (gateway E n req) (JObj []) = Inr (JObj kvs)"
proof (cases "gateway E n req")
  case None
  then show ?thesis by (simp add: first_arguments_def)
next
  case (Some r)
  show ?thesis
  proof (cases "tool_calls r")
    case Nil
    with Some show ?thesis by (simp add: first_arguments_def)
  next
    case (Cons tc tcs)
    then have "tc \<in> set (tool_calls r)" by simp
    from conforming_loads [OF assms Some this] obtain kvs
      where "json_loads E (tc_arguments tc) = Some (JObj kvs)" by blast
    with Some Cons show ?thesis by (simp add: first_arguments_def)
  qed
qed

lemma conforming_extract:
  assumes "conforming E"
  shows "\<exists>xs. task_extract_key_points E (Some p) w = (Inr (JArr xs), w @ [extract_request p])"
proof (cases "gateway E (length w) (extract_request p)")
  case None
  then show ?thesis by (simp add: task_extract_key_points_cases)
next
  case (Some r)
  show ?thesis
  proof (cases "tool_calls r")
    case Nil
    with Some show ?thesis by (simp add: task_extract_key_points_cases)
  next
    case (Cons tc tcs)
    then have "tc \<in> set (tool_calls r)" by simp
    from conforming_loads [OF assms Some this] obtain kvs
      where kvs: "json_loads E (tc_arguments tc) = Some (JObj kvs)"
        "\<And>v. map_of kvs ''key_points'' = Some v \<Longrightarrow> \<exists>xs. v = JArr xs" by blast
    show ?thesis
    proof (cases "map_of kvs ''key_points''")
      case None
      with Some Cons kvs(1) show ?thesis by (simp add: task_extract_key_points_cases)
    next
      case found: (Some v)
      with kvs(2) obtain xs where "v = JArr xs" by blast
      with Some Cons kvs(1) found show ?thesis
        by (simp add: task_extract_key_points_cases)
    qed
  qed
qed

lemma conforming_summary:
  assumes "conforming E"
  shows "\<exists>s. task_generate_summary E (JArr xs) w = (Inr s, w @ [summary_request E xs])"
proof (cases "gateway E (length w) (summary_request E xs)")
  case None
  then show ?thesis by (simp add: task_generate_summary_cases)
next
  case (Some r)
  show ?thesis
  proof (cases "tool_calls r")
    case Nil
    with Some show ?thesis by (simp add: task_generate_summary_cases)
  next
    case (Cons tc tcs)
    then have "tc \<in> set (tool_calls r)" by simp
    from conforming_loads [OF assms Some this] obtain kvs
      where "json_loads E (tc_arguments tc) = Some (JObj kvs)" by blast
    with Some Cons show ?thesis by (simp add: task_generate_summary_cases)
  qed
qed

lemma conforming_social:
  assumes "conforming E"
  shows "\<exists>kvs. task_create_social_media_posts E (JArr xs) t w =
           (Inr (JObj kvs), w @ [social_request E t xs])"
  using conforming_first_arguments [OF assms, of "length w" "social_request E t xs"]
  by (simp add: task_create_social_media_posts_cases)

lemma conforming_newsletter:
  assumes "conforming E"
  shows "\<exists>kvs. task_create_email_newsletter E (Some p) s (JArr xs) w =
           (Inr (JObj kvs), w @ [newsletter_request E p s xs])"
  using conforming_first_arguments [OF assms, of "length w" "newsletter_request E p s xs"]
  by (simp add: task_create_email_newsletter_cases)

lemma newsletter_fallback_log:
  assumes "conforming E" and "sample_blog_post E = Some p"
    and "map_of kvs ''key_points'' = None" and "map_of kvs ''summary'' = None"
  shows "\<exists>xs s out. execute_agent_tool E ''create_email_newsletter'' (JObj kvs) w =
           (Inr (JObj out),
            w @ [extract_request p, summary_request E xs, newsletter_request E p s xs])"
proof -
  let ?w1 = "w @ [extract_request p]"
  from conforming_extract [OF assms(1), of p w] obtain xs where
    xs: "task_extract_key_points E (Some p) w = (Inr (JArr xs), ?w1)" by blast
  let ?w2 = "?w1 @ [summary_request E xs]"
  from conforming_summary [OF assms(1), of xs ?w1] obtain s where
    s: "task_generate_summary E (JArr xs) ?w1 = (Inr s, ?w2)" by blast
  from conforming_newsletter [OF assms(1), of p s xs ?w2] obtain out where
    out: "task_create_email_newsletter E (Some p) s (JArr xs) ?w2 =
            (Inr (JObj out), ?w2 @ [newsletter_request E p s xs])" by blast
  have "execute_agent_tool E ''create_email_newsletter'' (JObj kvs) w =
          (Inr (JObj out), ?w2 @ [newsletter_request E p s xs])"
    using assms(2-4) xs s out
    by (simp add: execute_agent_tool_def get_sample_blog_post_def key_points_or_extract_def
          bind_def lift_def returns_def Let_def)
  then show ?thesis by auto
qed

text \<open>
  Claim C5. A dispatch of \<^verbatim>\<open>create_email_newsletter\<close> whose arguments hold neither
  \<open>key_points\<close> nor \<open>summary\<close> sends exactly three requests: the two recoveries,
  \<^verbatim>\<open>extract_key_points\<close> then \<^verbatim>\<open>generate_summary\<close>, and after them the
  newsletter request itself. The environment is a conforming one: the sample blog post
  loads and the argument texts that the gateway returns parse to mappings whose key
  points are a list.
\<close>

theorem newsletter_fallback:
  assumes "conforming E"
    and "map_of kvs ''key_points'' = None" and "map_of kvs ''summary'' = None"
  shows "\<exists>out new.
           execute_agent_tool E ''create_email_newsletter'' (JObj kvs) w =
             (Inr (JObj out), w @ new)
         \<and> map req_tool_choice new =
             [Some ''extract_key_points'', Some ''generate_summary'',
              Some ''create_email_newsletter'']"
proof -
  from assms(1) obtain p where p: "sample_blog_post E = Some p"
    by (auto simp: conforming_def)
  from newsletter_fallback_log [OF assms(1) p assms(2,3), of w] obtain xs s out where
    "execute_agent_tool E ''create_email_newsletter'' (JObj kvs) w =
       (Inr (JObj out),
        w @ [extract_request p, summary_request E xs, newsletter_request E p s xs])"
    by blast
  then show ?thesis
    by (intro exI [of _ out]
          exI [of _ "[extract_request p, summary_request E xs, newsletter_request E p s xs]"])
       (simp add: extract_request_def summary_request_def newsletter_request_def)
qed

section \<open>Runs in the sample environments\<close>

lemma textful_critic: "evaluator_textful critic_env" "improver_textful critic_env"
  by (simp_all add: evaluator_textful_def improver_textful_def critic_env_def)

lemma conforming_offline: "conforming offline_env"
  by (simp add: conforming_def offline_env_def args_ok_def)

lemma good_work: "sublist ''good'' ''good work''" "\<not> sublist ''good'' ''needs work''"
  unfolding contains_sublist [symmetric] by simp_all

lemma critic_run:
  "generate_with_reflexion critic_env (returns (JStr ''draft'')) 2 ''summary'' [] =
    (Inr (JStr ''needs work''),
     [evaluate_request critic_env (JStr ''draft'') ''summary'',
      improve_request critic_env (JStr ''draft'') ''needs work'',
      evaluate_request critic_env (JStr ''needs work'') ''summary'',
      improve_request critic_env (JStr ''needs work'') ''needs work''])"
  using good_work
  by (simp add: generate_with_reflexion_def bind_def returns_def numeral_2_eq_2
        evaluate_content_cases improve_content_cases critic_env_def text_json_def)

theorem generate_with_reflexion_bounded_witness:
  "evaluator_textful critic_env \<and> improver_textful critic_env
   \<and> fst (returns (JStr ''draft'') []) = Inr (JStr ''draft'')
   \<and> JStr ''draft'' \<noteq> JNull
   \<and> fst (generate_with_reflexion critic_env (returns (JStr ''draft'')) 2 ''summary'' []) =
       Inr (JStr ''needs work'')
   \<and> length (snd (generate_with_reflexion critic_env (returns (JStr ''draft'')) 2 ''summary'' [])) = 4"
  using generate_with_reflexion_bounded
          [of critic_env "returns (JStr ''draft'')" 2 "''summary''" "[]"]
        textful_critic
  by (simp add: critic_run returns_def)

lemma praise_run:
  "generate_with_reflexion praise_env (returns (JStr ''draft'')) 3 ''summary'' [] =
    (Inr (JStr ''draft''), [evaluate_request praise_env (JStr ''draft'') ''summary''])"
  using good_work
  by (simp add: generate_with_reflexion_def bind_def returns_def numeral_3_eq_3
        evaluate_content_cases praise_env_def)

theorem reflexion_first_evaluation_witness:
  "(0::int) < 3
   \<and> returns (JStr ''draft'') [] = (Inr (JStr ''draft''), [])
   \<and> fst (evaluate_content praise_env (JStr ''draft'') ''summary'' []) =
       Inr \<lparr>quality_score = 0.9, feedback = ''good work''\<rparr>
   \<and> generate_with_reflexion praise_env (returns (JStr ''draft'')) 3 ''summary'' [] =
       (Inr (JStr ''draft''), [evaluate_request praise_env (JStr ''draft'') ''summary''])"
proof -
  have h1: "(0::int) < 3" by simp
  have h2: "returns (JStr ''draft'') [] = (Inr (JStr ''draft''), [])"
    by (simp add: returns_def)
  have h3: "fst (evaluate_content praise_env (JStr ''draft'') ''summary'' []) =
       Inr \<lparr>quality_score = 0.9, feedback = ''good work''\<rparr>"
    using good_work by (simp add: evaluate_content_cases praise_env_def)
  from reflexion_first_evaluation
         [where max_attempts = 3 and generator_func = "returns (JStr ''draft'')" and w = "[]"
            and E = praise_env and content_type = "''summary''", OF h1 h2 h3]
       h1 h2 h3
  show ?thesis
    by (simp add: praise_run)
qed

theorem evaluate_content_score_witness:
  "gateway praise_env (length []) (evaluate_request praise_env (JStr ''draft'') ''summary'') =
     Some \<lparr>msg_content = Some ''good work'', tool_calls = []\<rparr>
   \<and> fst (evaluate_content praise_env (JStr ''draft'') ''summary'' []) =
       Inr \<lparr>quality_score = 0.9, feedback = ''good work''\<rparr>
   \<and> (0.9::real) \<in> {0.5, 0.6, 0.9} \<and> (0.8::real) \<le> 0.9 \<and> sublist ''good'' ''good work''"
  using evaluate_content_score [of praise_env "[]" "JStr ''draft''" "''summary''"] good_work
  by (simp add: praise_env_def)

theorem content_tools_default_witness:
  "no_invocation (gateway offline_env (length []) (extract_request sample_post))
   \<and> task_extract_key_points offline_env (Some sample_post) [] =
       (Inr (JArr []), [extract_request sample_post])
   \<and> py_iter (JArr [JStr ''a'', JStr ''b'']) = Inr [JStr ''a'', JStr ''b'']
   \<and> task_generate_summary offline_env (JArr [JStr ''a'', JStr ''b'']) [] =
       (Inr (JStr []), [summary_request offline_env [JStr ''a'', JStr ''b'']])
   \<and> task_create_social_media_posts offline_env (JArr [JStr ''a'', JStr ''b'']) ''T'' [] =
       (Inr (JObj []), [social_request offline_env ''T'' [JStr ''a'', JStr ''b'']])
   \<and> task_create_email_newsletter offline_env (Some sample_post) (JStr ''S'')
         (JArr [JStr ''a'', JStr ''b'']) [] =
       (Inr (JObj []),
        [newsletter_request offline_env sample_post (JStr ''S'') [JStr ''a'', JStr ''b'']])"
  using content_tools_default
          [of offline_env "[]" sample_post "JArr [JStr ''a'', JStr ''b'']" "''T''" "JStr ''S''"]
  by (simp add: no_invocation_def offline_env_def)

section \<open>The agent loop: number of requests\<close>

lemma is_agent_request [simp]: "is_agent_request (agent_request ms)"
  by (simp add: is_agent_request_def agent_request_def)

lemma tool_request_not_agent: "tool_request q \<Longrightarrow> \<not> is_agent_request q"
  by (simp add: tool_request_def is_agent_request_def)

lemma sends_save_partial: "sends (save_partial tool_name v rs) 0 P"
  by (cases "py_get v ''summary'' JNull")
     (simp_all add: save_partial_def sends_def bind_def lift_def returns_def)

lemma sends_run_tool_calls:
  "sends (run_tool_calls E tcs messages rs) (3 * length tcs) tool_request"
proof (induction tcs arbitrary: messages rs)
  case Nil
  show ?case by auto
next
  case (Cons tc tcs)
  have s0: "sends (loads E (tc_arguments tc)) 0 tool_request" by blast
  have body: "sends (if tc_name tc = ''finish'' then returns (Return arguments)
       else
         bind (execute_agent_tool E (tc_name tc) arguments) (\<lambda>tool_result.
         bind (save_partial (tc_name tc) tool_result rs) (\<lambda>rs'.
           run_tool_calls E tcs (messages @ [tool_message E tc tool_result]) rs')))
       (3 + (0 + 3 * length tcs)) tool_request" for arguments
  proof (cases "tc_name tc = ''finish''")
    case True
    then show ?thesis by auto
  next
    case False
    then show ?thesis
      by (simp only: if_False)
         (intro sends_bind sends_execute_agent_tool sends_save_partial Cons.IH)
  qed
  from sends_bind [OF s0 body] show ?case by simp
qed

lemma agent_loop_log:
  "\<exists>new. snd (agent_loop E n messages rs w) = w @ new
        \<and> length (filter is_agent_request new) \<le> n
        \<and> (invocations_bounded E m \<longrightarrow> length new \<le> n * (1 + 3 * m))"
proof (induction n arbitrary: messages rs w)
  case 0
  show ?case by (simp add: returns_def)
next
  case (Suc n)
  let ?req = "agent_request messages"
  let ?w1 = "w @ [?req]"
  have call: "call_llm E messages define_agent_tools None w = (Inr (gateway E (length w) ?req), ?w1)"
    by (simp add: call_llm_def agent_request_def Let_def)
  show ?case
  proof (cases "gateway E (length w) ?req")
    case None
    with call have "snd (agent_loop E (Suc n) messages rs w) = w @ [?req]"
      by (simp add: bind_def returns_def)
    then show ?thesis by simp
  next
    case (Some msg)
    show ?thesis
    proof (cases "tool_calls msg = []")
      case True
      with call Some have "snd (agent_loop E (Suc n) messages rs w) = w @ [?req]"
        by (simp add: bind_def returns_def)
      then show ?thesis by simp
    next
      case False
      let ?run = "run_tool_calls E (tool_calls msg) (messages @ [AssistantMsg msg]) rs"
      from sends_run_tool_calls [of E "tool_calls msg" "messages @ [AssistantMsg msg]" rs]
      obtain new1 where new1: "snd (?run ?w1) = ?w1 @ new1"
          "length new1 \<le> 3 * length (tool_calls msg)" "\<forall>q\<in>set new1. tool_request q"
        unfolding sends_def by blast
      from new1(3) have no_agent: "filter is_agent_request new1 = []"
        by (auto simp: filter_empty_conv tool_request_not_agent)
      have bound1: "length new1 \<le> 3 * m"
        if "invocations_bounded E m"
      proof -
        from that Some have "length (tool_calls msg) \<le> m"
          unfolding invocations_bounded_def by blast
        with new1(2) show ?thesis by simp
      qed
      show ?thesis
      proof (cases "fst (?run ?w1)")
        case (Inl e)
        with call Some False new1(1)
        have "snd (agent_loop E (Suc n) messages rs w) = w @ (?req # new1)"
          by (cases "?run ?w1") (simp add: bind_def)
        with no_agent bound1 show ?thesis by auto
      next
        case (Inr t)
        show ?thesis
        proof (cases t)
          case (Return a)
          with Inr call Some False new1(1)
          have "snd (agent_loop E (Suc n) messages rs w) = w @ (?req # new1)"
            by (cases "?run ?w1") (simp add: bind_def returns_def)
          with no_agent bound1 show ?thesis by auto
        next
          case (Continue messages' rs')
          with Inr call Some False new1(1)
          have step: "agent_loop E (Suc n) messages rs w =
                  agent_loop E n messages' rs' (w @ (?req # new1))"
            by (cases "?run ?w1") (simp add: bind_def)
          from Suc.IH [of messages' rs' "w @ (?req # new1)"] obtain new2 where
            new2: "snd (agent_loop E n messages' rs' (w @ (?req # new1))) =
                     (w @ (?req # new1)) @ new2"
              "length (filter is_agent_request new2) \<le> n"
              "invocations_bounded E m \<longrightarrow> length new2 \<le> n * (1 + 3 * m)"
            by blast
          show ?thesis
            by (rule exI [of _ "?req # new1 @ new2"])
               (use step new2 no_agent bound1 in auto)
        qed
      qed
    qed
  qed
qed

text \<open>
  Claim C2, as amended. When no answer of the model holds more than \<open>m\<close> tool
  invocations, an agent run sends at most \<open>max_iterations * (1 + 3 * m)\<close> requests: one
  agent request a turn, and for each invocation its own request and up to two recoveries.
  Whatever the model answers, the run sends at most \<open>max_iterations\<close> agent requests.
\<close>

theorem agent_gateway_calls_bound:
  "\<exists>new. snd (run_agent_workflow E blog_post w) = w @ new
        \<and> length (filter is_agent_request new) \<le> max_iterations
        \<and> (invocations_bounded E m \<longrightarrow> length new \<le> max_iterations * (1 + 3 * m))"
proof (cases blog_post)
  case None
  then show ?thesis by (simp add: run_agent_workflow_def raise_def)
next
  case (Some p)
  with agent_loop_log [of E max_iterations "initial_messages p" _ w m] show ?thesis
    by (simp add: run_agent_workflow_def)
qed

lemma conforming_scripted: "conforming (scripted_env tcs)"
  by (simp add: conforming_def scripted_env_def args_ok_def done_arguments_def)

lemma scripted_simps [simp]:
  "sample_blog_post (scripted_env tcs) = Some sample_post"
  "json_loads (scripted_env tcs) ''DONE'' = Some done_arguments"
  "json_loads (scripted_env tcs) ''{}'' = Some (JObj [])"
  "gateway (scripted_env tcs) n (agent_request ms) = Some \<lparr>msg_content = None, tool_calls = tcs\<rparr>"
  by (simp_all add: scripted_env_def agent_request_def define_agent_tools_def)

lemma agent_loop_Suc:
  "agent_loop E (Suc n) messages rs w =
     (case gateway E (length w) (agent_request messages) of
        None \<Rightarrow> (Inr (JObj [(''error'', JStr ''LLM call failed'')]), w @ [agent_request messages])
      | Some msg \<Rightarrow>
          if tool_calls msg = [] then (Inr (results_dict rs), w @ [agent_request messages])
          else
            (case run_tool_calls E (tool_calls msg) (messages @ [AssistantMsg msg]) rs
                    (w @ [agent_request messages]) of
               (Inl e, w2) \<Rightarrow> (Inl e, w2)
             | (Inr (Return a), w2) \<Rightarrow> (Inr a, w2)
             | (Inr (Continue messages' rs'), w2) \<Rightarrow> agent_loop E n messages' rs' w2))"
  by (simp add: call_llm_def Let_def agent_request_def bind_def returns_def
           split: option.splits prod.splits sum.splits turn.splits)

lemma run_agent_workflow_first_turn:
  "run_agent_workflow E (Some p) w =
     (case gateway E (length w) (agent_request (initial_messages p)) of
        None \<Rightarrow> (Inr (JObj [(''error'', JStr ''LLM call failed'')]),
                 w @ [agent_request (initial_messages p)])
      | Some msg \<Rightarrow>
          if tool_calls msg = [] then
            (Inr (results_dict \<lparr>res_summary = JNull, res_social_posts = JNull, res_email = JNull\<rparr>),
             w @ [agent_request (initial_messages p)])
          else
            (case run_tool_calls E (tool_calls msg) (initial_messages p @ [AssistantMsg msg])
                    \<lparr>res_summary = JNull, res_social_posts = JNull, res_email = JNull\<rparr>
                    (w @ [agent_request (initial_messages p)]) of
               (Inl e, w2) \<Rightarrow> (Inl e, w2)
             | (Inr (Return a), w2) \<Rightarrow> (Inr a, w2)
             | (Inr (Continue messages' rs'), w2) \<Rightarrow> agent_loop E 19 messages' rs' w2))"
proof -
  have m: "max_iterations = Suc 19" by (simp add: max_iterations_def)
  show ?thesis
    unfolding run_agent_workflow_def m by (simp only: option.case agent_loop_Suc)
qed

lemma newsletter_turn:
  assumes "conforming E" and "json_loads E ''{}'' = Some (JObj [])"
    and "json_loads E ''DONE'' = Some a"
  shows "\<exists>new. run_tool_calls E (replicate k newsletter_call @ [done_call]) messages rs w =
           (Inr (Return a), w @ new) \<and> length new = 3 * k"
proof (induction k arbitrary: messages rs w)
  case 0
  from assms(3) show ?case
    by (simp add: done_call_def loads_def bind_def returns_def)
next
  case (Suc k)
  from assms(1) obtain p where p: "sample_blog_post E = Some p"
    by (auto simp: conforming_def)
  from newsletter_fallback_log [OF assms(1) p, of "[]" w] obtain xs s out where
    exec: "execute_agent_tool E ''create_email_newsletter'' (JObj []) w =
       (Inr (JObj out),
        w @ [extract_request p, summary_request E xs, newsletter_request E p s xs])"
    by auto
  let ?w3 = "w @ [extract_request p, summary_request E xs, newsletter_request E p s xs]"
  let ?m = "messages @ [tool_message E newsletter_call (JObj out)]"
  let ?rs = "rs\<lparr>res_email := JObj out\<rparr>"
  from assms(2) exec have step:
    "run_tool_calls E (replicate (Suc k) newsletter_call @ [done_call]) messages rs w =
     run_tool_calls E (replicate k newsletter_call @ [done_call]) ?m ?rs ?w3"
    by (simp add: newsletter_call_def loads_def bind_def returns_def save_partial_def)
  from Suc.IH [of ?m ?rs ?w3] obtain new where
    "run_tool_calls E (replicate k newsletter_call @ [done_call]) ?m ?rs ?w3 =
       (Inr (Return a), ?w3 @ new)" "length new = 3 * k"
    by blast
  with step show ?case
    by (intro exI [of _ "[extract_request p, summary_request E xs,
          newsletter_request E p s xs] @ new"]) simp
qed

lemma greedy_run:
  "length (snd (run_agent_workflow (scripted_env (replicate 47 newsletter_call @ [done_call]))
     (Some sample_post) [])) = 142"
proof -
  let ?E = "scripted_env (replicate 47 newsletter_call @ [done_call])"
  let ?w1 = "[agent_request (initial_messages sample_post)]"
  from newsletter_turn [OF conforming_scripted, of _ done_arguments 47 _ _ ?w1]
  obtain new where new:
    "run_tool_calls ?E (replicate 47 newsletter_call @ [done_call])
       (initial_messages sample_post @
          [AssistantMsg \<lparr>msg_content = None,
             tool_calls = replicate 47 newsletter_call @ [done_call]\<rparr>])
       \<lparr>res_summary = JNull, res_social_posts = JNull, res_email = JNull\<rparr> ?w1 =
     (Inr (Return done_arguments), ?w1 @ new)" "length new = 3 * 47"
    by (metis scripted_simps(2,3))
  have "run_agent_workflow ?E (Some sample_post) [] = (Inr done_arguments, ?w1 @ new)"
    using new(1) by (simp add: run_agent_workflow_first_turn)
  with new(2) show ?thesis by simp
qed

text \<open>
  An answer of 47 newsletter invocations without arguments, then \<^verbatim>\<open>finish\<close>: the
  first turn alone sends 142 requests, more than 20 turns of 7.
\<close>

theorem agent_gateway_calls_counterexample:
  "max_iterations * (1 + 4 + 2) <
     length (snd (run_agent_workflow (scripted_env (replicate 47 newsletter_call @ [done_call]))
       (Some sample_post) []))"
  by (simp add: greedy_run max_iterations_def)

lemma detour_run:
  "run_agent_workflow (scripted_env [extract_call, done_call]) (Some sample_post) [] =
     (Inr done_arguments,
      [agent_request (initial_messages sample_post), extract_request sample_post])"
proof -
  let ?E = "scripted_env [extract_call, done_call]"
  have ext: "task_extract_key_points ?E (Some sample_post) w =
      (Inr (JArr []), w @ [extract_request sample_post])" for w
    by (simp add: task_extract_key_points_cases scripted_env_def extract_request_def)
  have "run_tool_calls ?E [extract_call, done_call] ms rs w =
      (Inr (Return done_arguments), w @ [extract_request sample_post])" for ms rs w
    using ext
    by (simp add: bind_def returns_def extract_call_def done_call_def loads_def
          execute_agent_tool_def get_sample_blog_post_def Let_def save_partial_def)
  then show ?thesis
    by (simp add: run_agent_workflow_first_turn)
qed

theorem agent_gateway_calls_bound_witness:
  "invocations_bounded (scripted_env [extract_call, done_call]) 2
   \<and> length (snd (run_agent_workflow (scripted_env [extract_call, done_call])
        (Some sample_post) [])) \<le> max_iterations * (1 + 3 * 2)"
proof -
  have h: "invocations_bounded (scripted_env [extract_call, done_call]) 2"
    by (simp add: invocations_bounded_def scripted_env_def)
  from agent_gateway_calls_bound
         [of "scripted_env [extract_call, done_call]" "Some sample_post" "[]" 2] h
  show ?thesis by auto
qed

section \<open>The agent loop: finish\<close>

text \<open>
  Claim C4, as amended. When the first tool invocation of the model's first answer is
  \<^verbatim>\<open>finish\<close>, the agent loop returns exactly the arguments of that invocation and
  sends exactly one request, the agent request; invocations after it are ignored.
\<close>

theorem finish_first:
  assumes "gateway E (length w) (agent_request (initial_messages p)) = Some msg"
    and "tool_calls msg = tc # rest" and "tc_name tc = ''finish''"
    and "json_loads E (tc_arguments tc) = Some arguments"
  shows "run_agent_workflow E (Some p) w =
           (Inr arguments, w @ [agent_request (initial_messages p)])"
proof -
  from assms(3,4) have "run_tool_calls E (tc # rest) ms rs w' = (Inr (Return arguments), w')"
    for ms rs w'
    by (simp add: loads_def bind_def returns_def)
  with assms(1,2) show ?thesis
    by (simp add: run_agent_workflow_first_turn)
qed

theorem finish_first_witness:
  "gateway (scripted_env [done_call, extract_call]) (length [])
      (agent_request (initial_messages sample_post)) =
     Some \<lparr>msg_content = None, tool_calls = [done_call, extract_call]\<rparr>
   \<and> tool_calls \<lparr>msg_content = None, tool_calls = [done_call, extract_call]\<rparr> =
       done_call # [extract_call]
   \<and> tc_name done_call = ''finish''
   \<and> json_loads (scripted_env [done_call, extract_call]) (tc_arguments done_call) =
       Some (JObj [(''summary'', JStr ''S''), (''social_posts'', JObj []), (''email'', JObj [])])
   \<and> run_agent_workflow (scripted_env [done_call, extract_call]) (Some sample_post) [] =
       (Inr (JObj [(''summary'', JStr ''S''), (''social_posts'', JObj []), (''email'', JObj [])]),
        [agent_request (initial_messages sample_post)])"
proof -
  let ?E = "scripted_env [done_call, extract_call]"
  let ?msg = "\<lparr>msg_content = None, tool_calls = [done_call, extract_call]\<rparr>"
  have h1: "gateway ?E (length []) (agent_request (initial_messages sample_post)) = Some ?msg"
    by simp
  have h2: "tool_calls ?msg = done_call # [extract_call]" by simp
  have h3: "tc_name done_call = ''finish''" by (simp add: done_call_def)
  have h4: "json_loads ?E (tc_arguments done_call) =
      Some (JObj [(''summary'', JStr ''S''), (''social_posts'', JObj []), (''email'', JObj [])])"
    by (simp add: done_call_def done_arguments_def [symmetric])
  from finish_first [OF h1 h2 h3 h4] h1 h2 h3 h4 show ?thesis by simp
qed

text \<open>
  The first answer holds a \<^verbatim>\<open>finish\<close> invocation with the arguments of the claim,
  after an \<^verbatim>\<open>extract_key_points\<close> invocation: the extraction is dispatched first, and
  the run sends two requests.
\<close>

theorem finish_not_first_counterexample:
  "gateway (scripted_env [extract_call, done_call]) 0
      (agent_request (initial_messages sample_post)) =
     Some \<lparr>msg_content = None, tool_calls = [extract_call, done_call]\<rparr>
   \<and> tc_name done_call = ''finish''
   \<and> json_loads (scripted_env [extract_call, done_call]) (tc_arguments done_call) =
       Some (JObj [(''summary'', JStr ''S''), (''social_posts'', JObj []), (''email'', JObj [])])
   \<and> run_agent_workflow (scripted_env [extract_call, done_call]) (Some sample_post) [] =
       (Inr (JObj [(''summary'', JStr ''S''), (''social_posts'', JObj []), (''email'', JObj [])]),
        [agent_request (initial_messages sample_post), extract_request sample_post])
   \<and> length (snd (run_agent_workflow (scripted_env [extract_call, done_call])
        (Some sample_post) [])) = 2"
proof -
  have "tc_name done_call = ''finish''" "tc_arguments done_call = ''DONE''"
    by (simp_all add: done_call_def)
  then show ?thesis
    by (simp add: detour_run done_arguments_def [symmetric])
qed

section \<open>The agent loop: exhaustion\<close>

lemma key_points_or_extract_ok:
  assumes "conforming E" and "kp = JNull \<or> (\<exists>xs. kp = JArr xs)"
  shows "\<exists>ys w'. key_points_or_extract E (Some p) kp w = (Inr (JArr ys), w')"
proof (cases "truthy kp")
  case True
  with assms(2) show ?thesis
    by (auto simp add: key_points_or_extract_def returns_def)
next
  case False
  with conforming_extract [OF assms(1), of p w] show ?thesis
    by (auto simp add: key_points_or_extract_def)
qed

lemma execute_agent_tool_ok:
  assumes "conforming E" and "args_ok a"
  shows "\<exists>v w'. execute_agent_tool E tool_name a w = (Inr v, w')
           \<and> (tool_name = ''generate_summary'' \<longrightarrow> (\<exists>s. v = JObj [(''summary'', s)]))"
proof -
  from assms(1) obtain p where p: "sample_blog_post E = Some p"
    by (auto simp: conforming_def)
  from assms(2) obtain kvs where a: "a = JObj kvs"
    and kp: "\<And>v. map_of kvs ''key_points'' = Some v \<Longrightarrow> \<exists>xs. v = JArr xs"
    by (auto simp: args_ok_def)
  define kp0 where "kp0 = (case map_of kvs ''key_points'' of None \<Rightarrow> JNull | Some v \<Rightarrow> v)"
  have kp0: "kp0 = JNull \<or> (\<exists>xs. kp0 = JArr xs)"
    using kp by (auto simp: kp0_def split: option.splits)
  from key_points_or_extract_ok [OF assms(1) kp0, of p w] obtain ys w1 where
    kpe: "key_points_or_extract E (Some p) kp0 w = (Inr (JArr ys), w1)" by blast
  consider (keypoints) "tool_name = ''extract_key_points''"
    | (summary) "tool_name = ''generate_summary''"
    | (social) "tool_name = ''create_social_media_posts''"
    | (email) "tool_name = ''create_email_newsletter''"
    | (other) "tool_name \<noteq> ''extract_key_points''" "tool_name \<noteq> ''generate_summary''"
        "tool_name \<noteq> ''create_social_media_posts''" "tool_name \<noteq> ''create_email_newsletter''"
    by blast
  then show ?thesis
  proof cases
    case keypoints
    with conforming_extract [OF assms(1), of p w] p show ?thesis
      by (auto simp add: execute_agent_tool_def get_sample_blog_post_def Let_def bind_def
            returns_def)
  next
    case summary
    from conforming_summary [OF assms(1), of ys w1] obtain s where
      "task_generate_summary E (JArr ys) w1 = (Inr s, w1 @ [summary_request E ys])" by blast
    with summary p a kpe show ?thesis
      by (simp add: execute_agent_tool_def get_sample_blog_post_def Let_def bind_def
            returns_def lift_def kp0_def)
  next
    case social
    from conforming_social [OF assms(1), of ys "post_title p" w1] obtain out where
      "task_create_social_media_posts E (JArr ys) (post_title p) w1 =
         (Inr (JObj out), w1 @ [social_request E (post_title p) ys])" by blast
    with social p a kpe show ?thesis
      by (simp add: execute_agent_tool_def get_sample_blog_post_def Let_def bind_def
            returns_def lift_def kp0_def)
  next
    case email
    define s0 where "s0 = (case map_of kvs ''summary'' of None \<Rightarrow> JNull | Some v \<Rightarrow> v)"
    have gets: "py_get a ''key_points'' JNull = Inr kp0" "py_get a ''summary'' JNull = Inr s0"
      by (simp_all add: a kp0_def s0_def)
    obtain s w2 where s:
      "(if \<not> truthy s0 then task_generate_summary E (JArr ys) else returns s0) w1 = (Inr s, w2)"
      using conforming_summary [OF assms(1), of ys w1]
      by (cases "truthy s0") (auto simp add: returns_def)
    from conforming_newsletter [OF assms(1), of p s ys w2] obtain out where
      out: "task_create_email_newsletter E (Some p) s (JArr ys) w2 =
         (Inr (JObj out), w2 @ [newsletter_request E p s ys])" by blast
    have "execute_agent_tool E ''create_email_newsletter'' a w =
        (Inr (JObj out), w2 @ [newsletter_request E p s ys])"
      unfolding execute_agent_tool_def get_sample_blog_post_def Let_def p gets
      using kpe s out
      by (simp add: bind_def lift_def)
    with email show ?thesis by simp
  next
    case other
    then show ?thesis
      by (simp add: execute_agent_tool_def Let_def returns_def)
  qed
qed

lemma save_partial_ok:
  assumes "tool_name = ''generate_summary'' \<longrightarrow> (\<exists>s. v = JObj [(''summary'', s)])"
  shows "\<exists>rs'. save_partial tool_name v rs w = (Inr rs', w)
           \<and> (tool_name \<noteq> ''generate_summary'' \<longrightarrow> res_summary rs' = res_summary rs)
           \<and> (tool_name \<noteq> ''create_social_media_posts'' \<longrightarrow>
                res_social_posts rs' = res_social_posts rs)
           \<and> (tool_name \<noteq> ''create_email_newsletter'' \<longrightarrow> res_email rs' = res_email rs)"
proof (cases "tool_name = ''generate_summary''")
  case True
  with assms obtain s where "v = JObj [(''summary'', s)]" by blast
  with True show ?thesis
    by (intro exI [of _ "rs\<lparr>res_summary := s\<rparr>"])
       (simp add: save_partial_def bind_def lift_def returns_def)
next
  case False
  show ?thesis
  proof (cases "tool_name = ''create_social_media_posts''")
    case True
    then show ?thesis
      by (intro exI [of _ "rs\<lparr>res_social_posts := v\<rparr>"])
         (simp add: save_partial_def returns_def)
  next
    case social: False
    show ?thesis
    proof (cases "tool_name = ''create_email_newsletter''")
      case True
      then show ?thesis
        by (intro exI [of _ "rs\<lparr>res_email := v\<rparr>"])
           (simp add: save_partial_def returns_def)
    next
      case email: False
      from False social email show ?thesis
        by (intro exI [of _ rs]) (simp add: save_partial_def returns_def)
    qed
  qed
qed

lemma run_tool_calls_ok:
  assumes "conforming E" and "\<forall>tc \<in> set tcs. tc_name tc \<noteq> ''finish''"
    and "\<forall>tc \<in> set tcs. \<exists>a. json_loads E (tc_arguments tc) = Some a \<and> args_ok a"
  shows "\<exists>messages' rs' w'. run_tool_calls E tcs messages rs w = (Inr (Continue messages' rs'), w')
           \<and> ((\<forall>tc \<in> set tcs. tc_name tc \<noteq> ''generate_summary'') \<longrightarrow>
                res_summary rs' = res_summary rs)
           \<and> ((\<forall>tc \<in> set tcs. tc_name tc \<noteq> ''create_social_media_posts'') \<longrightarrow>
                res_social_posts rs' = res_social_posts rs)
           \<and> ((\<forall>tc \<in> set tcs. tc_name tc \<noteq> ''create_email_newsletter'') \<longrightarrow>
                res_email rs' = res_email rs)"
  using assms(2,3)
proof (induction tcs arbitrary: messages rs w)
  case Nil
  show ?case by (simp add: returns_def)
next
  case (Cons tc tcs)
  from Cons.prems(2) obtain a where a: "json_loads E (tc_arguments tc) = Some a" "args_ok a"
    by auto
  from execute_agent_tool_ok [OF assms(1) a(2), of "tc_name tc" w] obtain v w1 where
    v: "execute_agent_tool E (tc_name tc) a w = (Inr v, w1)"
       "tc_name tc = ''generate_summary'' \<longrightarrow> (\<exists>s. v = JObj [(''summary'', s)])"
    by blast
  from save_partial_ok [OF v(2), of rs w1] obtain rs1 where
    rs1: "save_partial (tc_name tc) v rs w1 = (Inr rs1, w1)"
      "tc_name tc \<noteq> ''generate_summary'' \<longrightarrow> res_summary rs1 = res_summary rs"
      "tc_name tc \<noteq> ''create_social_media_posts'' \<longrightarrow> res_social_posts rs1 = res_social_posts rs"
      "tc_name tc \<noteq> ''create_email_newsletter'' \<longrightarrow> res_email rs1 = res_email rs"
    by blast
  from Cons.prems have nf: "tc_name tc \<noteq> ''finish''" "\<forall>tc \<in> set tcs. tc_name tc \<noteq> ''finish''"
    "\<forall>tc \<in> set tcs. \<exists>a. json_loads E (tc_arguments tc) = Some a \<and> args_ok a"
    by simp_all
  from nf(1) a(1) v(1) rs1(1) have step:
    "run_tool_calls E (tc # tcs) messages rs w =
       run_tool_calls E tcs (messages @ [tool_message E tc v]) rs1 w1"
    by (simp add: loads_def bind_def returns_def)
  from Cons.IH [OF nf(2,3), of "messages @ [tool_message E tc v]" rs1 w1] rs1(2-4) step
  show ?case by auto
qed

lemma agent_loop_ok:
  assumes "conforming E" and "answered E" and "never_called E ''finish''"
  shows "\<exists>rs'. fst (agent_loop E n messages rs w) = Inr (results_dict rs')
           \<and> (never_called E ''generate_summary'' \<longrightarrow> res_summary rs' = res_summary rs)
           \<and> (never_called E ''create_social_media_posts'' \<longrightarrow>
                res_social_posts rs' = res_social_posts rs)
           \<and> (never_called E ''create_email_newsletter'' \<longrightarrow> res_email rs' = res_email rs)"
proof (induction n arbitrary: messages rs w)
  case 0
  show ?case by (intro exI [of _ rs]) (simp add: returns_def)
next
  case (Suc n)
  let ?req = "agent_request messages"
  from assms(2) obtain msg where msg: "gateway E (length w) ?req = Some msg"
    unfolding answered_def using is_agent_request by blast
  show ?case
  proof (cases "tool_calls msg = []")
    case True
    with msg show ?thesis by (intro exI [of _ rs]) (simp add: agent_loop_Suc del: agent_loop.simps)
  next
    case False
    have called: "\<forall>tc \<in> set (tool_calls msg). tc_name tc \<noteq> tool" if "never_called E tool" for tool
      using that msg unfolding never_called_def by blast
    have parsed: "\<forall>tc \<in> set (tool_calls msg). \<exists>a. json_loads E (tc_arguments tc) = Some a \<and> args_ok a"
      using assms(1) msg unfolding conforming_def by blast
    from run_tool_calls_ok [OF assms(1) called [OF assms(3)] parsed,
        of "messages @ [AssistantMsg msg]" rs "w @ [?req]"]
    obtain messages' rs1 w1 where
      run: "run_tool_calls E (tool_calls msg) (messages @ [AssistantMsg msg]) rs (w @ [?req]) =
              (Inr (Continue messages' rs1), w1)"
        "(\<forall>tc \<in> set (tool_calls msg). tc_name tc \<noteq> ''generate_summary'') \<longrightarrow>
           res_summary rs1 = res_summary rs"
        "(\<forall>tc \<in> set (tool_calls msg). tc_name tc \<noteq> ''create_social_media_posts'') \<longrightarrow>
           res_social_posts rs1 = res_social_posts rs"
        "(\<forall>tc \<in> set (tool_calls msg). tc_name tc \<noteq> ''create_email_newsletter'') \<longrightarrow>
           res_email rs1 = res_email rs"
      by blast
    from msg False run(1) have step:
      "agent_loop E (Suc n) messages rs w = agent_loop E n messages' rs1 w1"
      by (simp add: agent_loop_Suc del: agent_loop.simps)
    from Suc.IH [of messages' rs1 w1] obtain rs2 where
      rs2: "fst (agent_loop E n messages' rs1 w1) = Inr (results_dict rs2)"
        "never_called E ''generate_summary'' \<longrightarrow> res_summary rs2 = res_summary rs1"
        "never_called E ''create_social_media_posts'' \<longrightarrow>
           res_social_posts rs2 = res_social_posts rs1"
        "never_called E ''create_email_newsletter'' \<longrightarrow> res_email rs2 = res_email rs1"
      by blast
    have "res_summary rs2 = res_summary rs" if "never_called E ''generate_summary''"
      using that rs2(2) run(2) called [OF that] by simp
    moreover have "res_social_posts rs2 = res_social_posts rs"
      if "never_called E ''create_social_media_posts''"
      using that rs2(3) run(3) called [OF that] by simp
    moreover have "res_email rs2 = res_email rs" if "never_called E ''create_email_newsletter''"
      using that rs2(4) run(4) called [OF that] by simp
    ultimately show ?thesis
      using step rs2(1) by (intro exI [of _ rs2]) simp
  qed
qed

lemma save_partial_record:
  assumes "tc_name tc = ''generate_summary'' \<longrightarrow> (\<exists>s. v = JObj [(''summary'', s)])"
  shows "save_partial (tc_name tc) v rs w = (Inr (record_result rs (tc, v)), w)"
proof (cases "tc_name tc = ''generate_summary''")
  case True
  with assms obtain s where "v = JObj [(''summary'', s)]" by blast
  with True show ?thesis
    by (simp add: save_partial_def record_result_def field_or_def bind_def lift_def returns_def)
next
  case False
  then show ?thesis
    by (simp add: save_partial_def record_result_def returns_def)
qed

lemma run_tool_calls_dispatches:
  assumes "conforming E" and "\<forall>tc \<in> set tcs. tc_name tc \<noteq> ''finish''"
    and "\<forall>tc \<in> set tcs. \<exists>a. json_loads E (tc_arguments tc) = Some a \<and> args_ok a"
  shows "\<exists>ds w'. turn_dispatches E tcs w = (ds, w', True)
           \<and> run_tool_calls E tcs messages rs w =
               (Inr (Continue (messages @ map (\<lambda>d. tool_message E (fst d) (snd d)) ds)
                      (foldl record_result rs ds)), w')"
  using assms(2,3)
proof (induction tcs arbitrary: messages rs w)
  case Nil
  show ?case by (simp add: returns_def)
next
  case (Cons tc tcs)
  from Cons.prems(2) obtain a where a: "json_loads E (tc_arguments tc) = Some a" "args_ok a"
    by auto
  from execute_agent_tool_ok [OF assms(1) a(2), of "tc_name tc" w] obtain v w1 where
    v: "execute_agent_tool E (tc_name tc) a w = (Inr v, w1)"
       "tc_name tc = ''generate_summary'' \<longrightarrow> (\<exists>s. v = JObj [(''summary'', s)])"
    by blast
  note sv = save_partial_record [OF v(2), of rs w1]
  from Cons.prems have nf: "tc_name tc \<noteq> ''finish''" "\<forall>tc \<in> set tcs. tc_name tc \<noteq> ''finish''"
    "\<forall>tc \<in> set tcs. \<exists>a. json_loads E (tc_arguments tc) = Some a \<and> args_ok a"
    by simp_all
  from nf(1) a(1) v(1) sv have step:
    "run_tool_calls E (tc # tcs) messages rs w =
       run_tool_calls E tcs (messages @ [tool_message E tc v]) (record_result rs (tc, v)) w1"
    by (simp add: loads_def bind_def returns_def)
  from Cons.IH [OF nf(2,3), of w1 "messages @ [tool_message E tc v]" "record_result rs (tc, v)"]
  obtain ds w2 where ds: "turn_dispatches E tcs w1 = (ds, w2, True)"
    "run_tool_calls E tcs (messages @ [tool_message E tc v]) (record_result rs (tc, v)) w1 =
       (Inr (Continue ((messages @ [tool_message E tc v]) @
               map (\<lambda>d. tool_message E (fst d) (snd d)) ds)
              (foldl record_result (record_result rs (tc, v)) ds)), w2)"
    by blast
  from nf(1) a(1) v(1) ds(1) have tr: "turn_dispatches E (tc # tcs) w = ((tc, v) # ds, w2, True)"
    by simp
  show ?case
    by (intro exI [of _ "(tc, v) # ds"] exI [of _ w2]) (use step ds(2) tr in simp)
qed

lemma agent_loop_dispatches:
  assumes "conforming E" and "answered E" and "never_called E ''finish''"
  shows "fst (agent_loop E n messages rs w) =
           Inr (results_dict (foldl record_result rs (agent_dispatches E n messages w)))"
proof (induction n arbitrary: messages rs w)
  case 0
  show ?case by (simp add: returns_def)
next
  case (Suc n)
  let ?req = "agent_request messages"
  from assms(2) obtain msg where msg: "gateway E (length w) ?req = Some msg"
    unfolding answered_def using is_agent_request by blast
  show ?case
  proof (cases "tool_calls msg = []")
    case True
    with msg show ?thesis by (simp add: agent_loop_Suc del: agent_loop.simps)
  next
    case False
    have nf: "\<forall>tc \<in> set (tool_calls msg). tc_name tc \<noteq> ''finish''"
      using assms(3) msg unfolding never_called_def by blast
    have parsed: "\<forall>tc \<in> set (tool_calls msg). \<exists>a. json_loads E (tc_arguments tc) = Some a \<and> args_ok a"
      using assms(1) msg unfolding conforming_def by blast
    from run_tool_calls_dispatches [OF assms(1) nf parsed,
        of "w @ [?req]" "messages @ [AssistantMsg msg]" rs]
    obtain ds w' where ds: "turn_dispatches E (tool_calls msg) (w @ [?req]) = (ds, w', True)"
      and run: "run_tool_calls E (tool_calls msg) (messages @ [AssistantMsg msg]) rs (w @ [?req]) =
        (Inr (Continue
               ((messages @ [AssistantMsg msg]) @ map (\<lambda>d. tool_message E (fst d) (snd d)) ds)
               (foldl record_result rs ds)), w')"
      by blast
    from msg False ds have tr: "agent_dispatches E (Suc n) messages w =
        ds @ agent_dispatches E n
               (messages @ AssistantMsg msg # map (\<lambda>d. tool_message E (fst d) (snd d)) ds) w'"
      by simp
    from msg False run have step: "agent_loop E (Suc n) messages rs w =
        agent_loop E n (messages @ AssistantMsg msg # map (\<lambda>d. tool_message E (fst d) (snd d)) ds)
          (foldl record_result rs ds) w'"
      by (simp add: agent_loop_Suc del: agent_loop.simps)
    show ?thesis
      unfolding step tr foldl_append by (rule Suc.IH)
  qed
qed

text \<open>
  Claim C6. In a conforming environment, when every agent request is answered and no
  answer holds a \<^verbatim>\<open>finish\<close> invocation, the agent loop stops after at most
  \<open>max_iterations\<close> agent requests and returns the partial results: the mapping with the
  keys \<open>summary\<close>, \<open>social_posts\<close> and \<open>email\<close> that starts with \<^verbatim>\<open>None\<close> everywhere
  and records the result of every dispatch of the run, in order, under the key of its
  tool. A field whose tool was never invoked is \<^verbatim>\<open>None\<close> there.
\<close>

theorem agent_exhaustion:
  assumes "conforming E" and "answered E" and "never_called E ''finish''"
  shows "\<exists>rs new.
           rs = foldl record_result
                  \<lparr>res_summary = JNull, res_social_posts = JNull, res_email = JNull\<rparr>
                  (agent_dispatches E max_iterations (initial_messages p) w)
         \<and> run_agent_workflow E (Some p) w =
             (Inr (JObj [(''summary'', res_summary rs), (''social_posts'', res_social_posts rs),
                         (''email'', res_email rs)]), w @ new)
         \<and> length (filter is_agent_request new) \<le> max_iterations
         \<and> (never_called E ''generate_summary'' \<longrightarrow> res_summary rs = JNull)
         \<and> (never_called E ''create_social_media_posts'' \<longrightarrow> res_social_posts rs = JNull)
         \<and> (never_called E ''create_email_newsletter'' \<longrightarrow> res_email rs = JNull)"
proof -
  let ?rs0 = "\<lparr>res_summary = JNull, res_social_posts = JNull, res_email = JNull\<rparr>"
  let ?run = "agent_loop E max_iterations (initial_messages p) ?rs0 w"
  define rs where
    "rs = foldl record_result ?rs0 (agent_dispatches E max_iterations (initial_messages p) w)"
  have res: "fst ?run = Inr (results_dict rs)"
    unfolding rs_def by (rule agent_loop_dispatches [OF assms])
  from agent_loop_ok [OF assms, of max_iterations "initial_messages p" ?rs0 w]
  obtain rs' where rs': "fst ?run = Inr (results_dict rs')"
      "never_called E ''generate_summary'' \<longrightarrow> res_summary rs' = JNull"
      "never_called E ''create_social_media_posts'' \<longrightarrow> res_social_posts rs' = JNull"
      "never_called E ''create_email_newsletter'' \<longrightarrow> res_email rs' = JNull"
    by fastforce
  from res rs'(1) have same: "res_summary rs = res_summary rs'"
      "res_social_posts rs = res_social_posts rs'" "res_email rs = res_email rs'"
    by (simp_all add: results_dict_def)
  from agent_loop_log [of E max_iterations "initial_messages p" ?rs0 w 0]
  obtain new where new: "snd ?run = w @ new"
      "length (filter is_agent_request new) \<le> max_iterations"
    by blast
  from res new(1) have "run_agent_workflow E (Some p) w = (Inr (results_dict rs), w @ new)"
    by (cases ?run) (simp add: run_agent_workflow_def)
  with rs'(2-4) same new(2) show ?thesis
    by (intro exI [of _ rs] exI [of _ new]) (simp add: results_dict_def rs_def)
qed

section \<open>Runs against the stub gateway\<close>

lemma stub_env_simps [simp]:
  "sample_blog_post (stub_env tcs) = Some sample_post"
  "json_loads (stub_env tcs) = stub_loads"
  "json_dumps (stub_env tcs) = stub_dumps"
  "py_repr (stub_env tcs) = stub_repr"
  "gateway (stub_env tcs) = stub_gateway tcs"
  by (simp_all add: stub_env_def)

lemma stub_gateway_simps [simp]:
  "stub_gateway tcs n (extract_request p) =
     Some (stub_invocation ''extract_key_points'' ''KEY_POINTS'')"
  "stub_gateway tcs n (summary_request E kps) = Some (stub_invocation ''generate_summary'' ''SUMMARY'')"
  "stub_gateway tcs n (social_request E t kps) =
     Some (stub_invocation ''create_social_media_posts'' ''SOCIAL'')"
  "stub_gateway tcs n (newsletter_request E p s kps) =
     Some (stub_invocation ''create_email_newsletter'' ''EMAIL'')"
  "stub_gateway tcs n (evaluate_request E c ct) = Some \<lparr>msg_content = Some ''good'', tool_calls = []\<rparr>"
  "stub_gateway tcs n (agent_request ms) = Some \<lparr>msg_content = None, tool_calls = tcs\<rparr>"
  by (simp_all add: stub_gateway_def extract_request_def summary_request_def social_request_def
        newsletter_request_def evaluate_request_def agent_request_def define_agent_tools_def)

lemma stub_loads_simps [simp]:
  "stub_loads ''KEY_POINTS'' = Some (JObj [(''key_points'', JArr [JStr ''a'', JStr ''b''])])"
  "stub_loads ''SUMMARY'' = Some (JObj [(''summary'', JStr ''S'')])"
  "stub_loads ''SOCIAL'' =
     Some (JObj [(''twitter'', JStr ''x''), (''linkedin'', JStr ''y''), (''facebook'', JStr ''z'')])"
  "stub_loads ''EMAIL'' = Some (JObj [(''subject'', JStr ''Sub''), (''body'', JStr ''Body'')])"
  "stub_loads ''{}'' = Some (JObj [])"
  by (simp_all add: stub_loads_def)

lemma stub_tasks:
  "task_extract_key_points (stub_env tcs) (Some sample_post) w =
     (Inr (JArr [JStr ''a'', JStr ''b'']), w @ [extract_request sample_post])"
  "task_generate_summary (stub_env tcs) (JArr kps) w =
     (Inr (JStr ''S''), w @ [summary_request (stub_env tcs) kps])"
  "task_create_social_media_posts (stub_env tcs) (JArr kps) t w =
     (Inr (JObj [(''twitter'', JStr ''x''), (''linkedin'', JStr ''y''), (''facebook'', JStr ''z'')]),
      w @ [social_request (stub_env tcs) t kps])"
  "task_create_email_newsletter (stub_env tcs) (Some sample_post) s (JArr kps) w =
     (Inr (JObj [(''subject'', JStr ''Sub''), (''body'', JStr ''Body'')]),
      w @ [newsletter_request (stub_env tcs) sample_post s kps])"
  by (simp_all add: task_extract_key_points_cases task_generate_summary_cases
        task_create_social_media_posts_cases task_create_email_newsletter_cases
        first_arguments_def stub_invocation_def)

lemma stub_evaluate:
  "evaluate_content (stub_env tcs) c ct w =
     (Inr \<lparr>quality_score = 0.9, feedback = ''good''\<rparr>, w @ [evaluate_request (stub_env tcs) c ct])"
proof -
  have "sublist ''good'' ''good''" by simp
  then show ?thesis by (simp add: evaluate_content_cases)
qed

lemma conforming_stub:
  assumes "\<forall>tc \<in> set tcs. tc_arguments tc = ''{}''"
  shows "conforming (stub_env tcs)"
  unfolding conforming_def
proof (intro conjI allI impI ballI)
  show "sample_blog_post (stub_env tcs) \<noteq> None" by simp
next
  fix n req r tc
  assume r: "gateway (stub_env tcs) n req = Some r" and tc: "tc \<in> set (tool_calls r)"
  from r have "r \<in> {stub_invocation ''extract_key_points'' ''KEY_POINTS'',
      stub_invocation ''generate_summary'' ''SUMMARY'',
      stub_invocation ''create_social_media_posts'' ''SOCIAL'',
      stub_invocation ''create_email_newsletter'' ''EMAIL'',
      \<lparr>msg_content = Some ''good'', tool_calls = []\<rparr>, \<lparr>msg_content = None, tool_calls = tcs\<rparr>}"
    by (simp add: stub_gateway_def split: if_splits)
  with tc assms have "tc_arguments tc \<in> {''KEY_POINTS'', ''SUMMARY'', ''SOCIAL'', ''EMAIL'', ''{}''}"
    by (auto simp add: stub_invocation_def)
  then show "\<exists>a. json_loads (stub_env tcs) (tc_arguments tc) = Some a \<and> args_ok a"
    by (auto simp add: args_ok_def)
qed

text \<open>A conforming environment whose parser fails on a text that is no JSON.\<close>

lemma conforming_stub_parser_fails:
  "conforming (stub_env []) \<and> json_loads (stub_env []) ''not json'' = None"
  by (simp add: conforming_stub stub_loads_def)

lemma answered_stub: "answered (stub_env tcs)"
  by (simp add: answered_def is_agent_request_def stub_gateway_def define_agent_tools_def)

lemma never_finish_stub:
  assumes "\<forall>tc \<in> set tcs. tc_name tc \<noteq> ''finish''"
  shows "never_called (stub_env tcs) ''finish''"
  unfolding never_called_def
proof (intro allI impI ballI)
  fix n req r tc
  assume r: "gateway (stub_env tcs) n req = Some r" and tc: "tc \<in> set (tool_calls r)"
  from r have "r \<in> {stub_invocation ''extract_key_points'' ''KEY_POINTS'',
      stub_invocation ''generate_summary'' ''SUMMARY'',
      stub_invocation ''create_social_media_posts'' ''SOCIAL'',
      stub_invocation ''create_email_newsletter'' ''EMAIL'',
      \<lparr>msg_content = Some ''good'', tool_calls = []\<rparr>, \<lparr>msg_content = None, tool_calls = tcs\<rparr>}"
    by (simp add: stub_gateway_def split: if_splits)
  with tc assms show "tc_name tc \<noteq> ''finish''"
    by (auto simp add: stub_invocation_def)
qed

lemma stub_newsletter_run:
  "execute_agent_tool (stub_env tcs) ''create_email_newsletter'' (JObj []) w =
     (Inr (JObj [(''subject'', JStr ''Sub''), (''body'', JStr ''Body'')]),
      w @ [extract_request sample_post,
           summary_request (stub_env tcs) [JStr ''a'', JStr ''b''],
           newsletter_request (stub_env tcs) sample_post (JStr ''S'') [JStr ''a'', JStr ''b'']])"
  by (simp add: execute_agent_tool_def get_sample_blog_post_def key_points_or_extract_def
        bind_def lift_def returns_def Let_def stub_tasks)

theorem newsletter_fallback_witness:
  "conforming (stub_env [])
   \<and> map_of [] ''key_points'' = (None :: json option)
   \<and> map_of [] ''summary'' = (None :: json option)
   \<and> execute_agent_tool (stub_env []) ''create_email_newsletter'' (JObj []) [] =
       (Inr (JObj [(''subject'', JStr ''Sub''), (''body'', JStr ''Body'')]),
        [extract_request sample_post,
         summary_request (stub_env []) [JStr ''a'', JStr ''b''],
         newsletter_request (stub_env []) sample_post (JStr ''S'') [JStr ''a'', JStr ''b'']])
   \<and> map req_tool_choice
        (snd (execute_agent_tool (stub_env []) ''create_email_newsletter'' (JObj []) [])) =
       [Some ''extract_key_points'', Some ''generate_summary'',
        Some ''create_email_newsletter'']"
proof -
  have c: "conforming (stub_env [])" by (rule conforming_stub) simp
  from newsletter_fallback [OF c, of "[]" "[]"] c show ?thesis
    by (simp add: stub_newsletter_run extract_request_def summary_request_def
          newsletter_request_def)
qed

lemma stub_summary_turn:
  "run_tool_calls (stub_env tcs) [summary_call] messages rs w =
     (Inr (Continue
            (messages @ [tool_message (stub_env tcs) summary_call (JObj [(''summary'', JStr ''S'')])])
            (rs\<lparr>res_summary := JStr ''S''\<rparr>)),
      w @ [extract_request sample_post,
           summary_request (stub_env tcs) [JStr ''a'', JStr ''b'']])"
  by (simp add: summary_call_def loads_def execute_agent_tool_def get_sample_blog_post_def
        key_points_or_extract_def save_partial_def bind_def lift_def returns_def Let_def
        stub_tasks)

lemma stub_summary_loop:
  "0 < n \<Longrightarrow>
   fst (agent_loop (stub_env [summary_call]) n messages rs w) =
     Inr (results_dict (rs\<lparr>res_summary := JStr ''S''\<rparr>))"
proof (induction n arbitrary: messages rs w)
  case 0
  then show ?case by simp
next
  case (Suc n)
  let ?E = "stub_env [summary_call]"
  let ?m = "(messages @ [AssistantMsg \<lparr>msg_content = None, tool_calls = [summary_call]\<rparr>]) @
      [tool_message ?E summary_call (JObj [(''summary'', JStr ''S'')])]"
  let ?w = "(w @ [agent_request messages]) @
      [extract_request sample_post, summary_request ?E [JStr ''a'', JStr ''b'']]"
  have step: "agent_loop ?E (Suc n) messages rs w =
      agent_loop ?E n ?m (rs\<lparr>res_summary := JStr ''S''\<rparr>) ?w"
    by (simp add: agent_loop_Suc stub_summary_turn summary_call_def [symmetric]
          del: agent_loop.simps run_tool_calls.simps)
  show ?case
  proof (cases n)
    case 0
    with step show ?thesis by (simp add: returns_def)
  next
    case (Suc k)
    with Suc.IH [of ?m "rs\<lparr>res_summary := JStr ''S''\<rparr>" ?w] step show ?thesis
      by simp
  qed
qed

theorem agent_exhaustion_witness:
  "conforming (stub_env [summary_call])
   \<and> answered (stub_env [summary_call])
   \<and> never_called (stub_env [summary_call]) ''finish''
   \<and> fst (run_agent_workflow (stub_env [summary_call]) (Some sample_post) []) =
       Inr (JObj [(''summary'', JStr ''S''), (''social_posts'', JNull), (''email'', JNull)])"
proof -
  let ?E = "stub_env [summary_call]"
  have c: "conforming ?E" by (rule conforming_stub) (simp add: summary_call_def)
  have n: "never_called ?E ''finish''" by (rule never_finish_stub) (simp add: summary_call_def)
  have run: "fst (run_agent_workflow ?E (Some sample_post) []) =
       Inr (JObj [(''summary'', JStr ''S''), (''social_posts'', JNull), (''email'', JNull)])"
    by (simp add: run_agent_workflow_def stub_summary_loop max_iterations_def results_dict_def)
  from agent_exhaustion [OF c answered_stub n, of sample_post "[]"] c answered_stub n run
  show ?thesis by simp
qed

section \<open>The comparison report\<close>

text \<open>
  The six evaluations of the report, for an agent output that is a mapping, when every
  answer to an evaluation request carries text: a field whose key is missing is
  evaluated as the default of \<^verbatim>\<open>get\<close>, a field that is present as it is.
\<close>

lemma compare_report_requests:
  assumes "evaluator_textful E"
  shows "\<exists>rep.
           compare_report E
             (JObj [(''summary'', s), (''social_media'', sp), (''email'', em)]) (JObj kvs) w =
           (Inr rep,
            w @ [evaluate_request E s ''summary'',
                 evaluate_request E (JStr (json_dumps E sp)) ''social_media_post'',
                 evaluate_request E (JStr (json_dumps E em)) ''email'',
                 evaluate_request E (field_or kvs ''summary'' (JStr [])) ''summary'',
                 evaluate_request E
                   (JStr (json_dumps E (field_or kvs ''social_posts'' (JObj []))))
                   ''social_media_post'',
                 evaluate_request E
                   (JStr (json_dumps E (field_or kvs ''email'' (JObj [])))) ''email''])"
proof -
  let ?q1 = "evaluate_request E s ''summary''"
  let ?q2 = "evaluate_request E (JStr (json_dumps E sp)) ''social_media_post''"
  let ?q3 = "evaluate_request E (JStr (json_dumps E em)) ''email''"
  let ?q4 = "evaluate_request E (field_or kvs ''summary'' (JStr [])) ''summary''"
  let ?q5 = "evaluate_request E (JStr (json_dumps E (field_or kvs ''social_posts'' (JObj []))))
               ''social_media_post''"
  let ?q6 = "evaluate_request E (JStr (json_dumps E (field_or kvs ''email'' (JObj [])))) ''email''"
  note ev = evaluate_content_textful [OF assms]
  from ev obtain e1 where e1: "evaluate_content E s ''summary'' w = (Inr e1, w @ [?q1])"
    by blast
  from ev obtain e2 where e2: "evaluate_content E (JStr (json_dumps E sp)) ''social_media_post''
      (w @ [?q1]) = (Inr e2, (w @ [?q1]) @ [?q2])" by blast
  from ev obtain e3 where e3: "evaluate_content E (JStr (json_dumps E em)) ''email''
      (w @ [?q1, ?q2]) = (Inr e3, (w @ [?q1, ?q2]) @ [?q3])" by blast
  from ev obtain e4 where e4: "evaluate_content E (field_or kvs ''summary'' (JStr [])) ''summary''
      (w @ [?q1, ?q2, ?q3]) = (Inr e4, (w @ [?q1, ?q2, ?q3]) @ [?q4])" by blast
  from ev obtain e5 where e5:
    "evaluate_content E (JStr (json_dumps E (field_or kvs ''social_posts'' (JObj []))))
      ''social_media_post'' (w @ [?q1, ?q2, ?q3, ?q4]) =
       (Inr e5, (w @ [?q1, ?q2, ?q3, ?q4]) @ [?q5])" by blast
  from ev obtain e6 where e6:
    "evaluate_content E (JStr (json_dumps E (field_or kvs ''email'' (JObj [])))) ''email''
      (w @ [?q1, ?q2, ?q3, ?q4, ?q5]) = (Inr e6, (w @ [?q1, ?q2, ?q3, ?q4, ?q5]) @ [?q6])"
    by blast
  have "compare_report E
          (JObj [(''summary'', s), (''social_media'', sp), (''email'', em)]) (JObj kvs) w =
        (Inr \<lparr>reflexion_eval = \<lparr>ev_summary = e1, ev_social = e2, ev_email = e3\<rparr>,
               agent_eval = \<lparr>ev_summary = e4, ev_social = e5, ev_email = e6\<rparr>\<rparr>,
         w @ [?q1, ?q2, ?q3, ?q4, ?q5, ?q6])"
    using e1 e2 e3 e4 e5 e6
    by (simp add: compare_report_def bind_def lift_def returns_def field_or_def)
  then show ?thesis by blast
qed

text \<open>An agent output that is no mapping: \<^verbatim>\<open>get\<close> raises after the third evaluation.\<close>

lemma compare_report_not_a_mapping:
  "compare_report (stub_env tcs)
     (JObj [(''summary'', s), (''social_media'', sp), (''email'', em)]) (JArr xs) w =
   (Inl AttributeError,
    w @ [evaluate_request (stub_env tcs) s ''summary'',
         evaluate_request (stub_env tcs) (JStr (stub_dumps sp)) ''social_media_post'',
         evaluate_request (stub_env tcs) (JStr (stub_dumps em)) ''email''])"
  by (simp add: compare_report_def bind_def lift_def stub_evaluate)

lemma stub_reflexion:
  assumes "generator_func w = (Inr c, w1)"
  shows "generate_with_reflexion (stub_env tcs) generator_func 3 ct w =
           (Inr c, w1 @ [evaluate_request (stub_env tcs) c ct])"
  using assms
  by (simp add: generate_with_reflexion_def bind_def returns_def numeral_3_eq_3 stub_evaluate)

lemma stub_workflow:
  "run_workflow_with_reflexion (stub_env tcs) (Some sample_post) [] =
     (Inr (JObj [(''summary'', JStr ''S''),
                 (''social_media'',
                  JObj [(''twitter'', JStr ''x''), (''linkedin'', JStr ''y''),
                        (''facebook'', JStr ''z'')]),
                 (''email'', JObj [(''subject'', JStr ''Sub''), (''body'', JStr ''Body'')])]),
      [extract_request sample_post,
       summary_request (stub_env tcs) [JStr ''a'', JStr ''b''],
       evaluate_request (stub_env tcs) (JStr ''S'') ''summary'',
       social_request (stub_env tcs) ''T'' [JStr ''a'', JStr ''b''],
       evaluate_request (stub_env tcs)
         (JObj [(''twitter'', JStr ''x''), (''linkedin'', JStr ''y''), (''facebook'', JStr ''z'')])
         ''social_media_post'',
       newsletter_request (stub_env tcs) sample_post (JStr ''S'') [JStr ''a'', JStr ''b''],
       evaluate_request (stub_env tcs)
         (JObj [(''subject'', JStr ''Sub''), (''body'', JStr ''Body'')]) ''email''])"
proof -
  have t: "post_title sample_post = ''T''" by (simp add: sample_post_def)
  show ?thesis
    by (simp add: run_workflow_with_reflexion_def bind_def returns_def stub_tasks
          stub_reflexion t)
qed

lemma stub_agent_idle:
  "run_agent_workflow (stub_env []) (Some sample_post) w =
     (Inr (JObj [(''summary'', JNull), (''social_posts'', JNull), (''email'', JNull)]),
      w @ [agent_request (initial_messages sample_post)])"
  by (simp add: run_agent_workflow_first_turn results_dict_def)

text \<open>
  Claim C9. The agent's answer holds no tool invocation, so the agent pipeline returns
  its partial results with every field \<^verbatim>\<open>None\<close>. The comparison evaluates all six
  fragments and returns its report, but it substitutes nothing for the three agent
  fields: \<^verbatim>\<open>get\<close> finds the keys, and the evaluator is asked about \<^verbatim>\<open>None\<close> and about
  the JSON text \<^verbatim>\<open>null\<close>, not about the empty string and the empty mapping.
\<close>

theorem compare_workflows_none_fields:
  "fst (run_agent_workflow (stub_env []) (Some sample_post) []) =
     Inr (JObj [(''summary'', JNull), (''social_posts'', JNull), (''email'', JNull)])
   \<and> fst (compare_workflows (stub_env []) (Some sample_post) []) =
       Inr \<lparr>reflexion_eval =
               \<lparr>ev_summary = \<lparr>quality_score = 0.9, feedback = ''good''\<rparr>,
                ev_social = \<lparr>quality_score = 0.9, feedback = ''good''\<rparr>,
                ev_email = \<lparr>quality_score = 0.9, feedback = ''good''\<rparr>\<rparr>,
             agent_eval =
               \<lparr>ev_summary = \<lparr>quality_score = 0.9, feedback = ''good''\<rparr>,
                ev_social = \<lparr>quality_score = 0.9, feedback = ''good''\<rparr>,
                ev_email = \<lparr>quality_score = 0.9, feedback = ''good''\<rparr>\<rparr>\<rparr>
   \<and> drop 11 (snd (compare_workflows (stub_env []) (Some sample_post) [])) =
       [evaluate_request (stub_env []) JNull ''summary'',
        evaluate_request (stub_env []) (JStr ''null'') ''social_media_post'',
        evaluate_request (stub_env []) (JStr ''null'') ''email'']
   \<and> evaluate_messages (stub_env []) JNull ''summary'' =
       [Msg ''system'' ''Evaluate quality and give feedback.'',
        Msg ''user'' (''Evaluate this summary:'' @ nl @ ''None'')]
   \<and> evaluate_request (stub_env []) JNull ''summary'' \<noteq>
       evaluate_request (stub_env []) (JStr []) ''summary''
   \<and> evaluate_request (stub_env []) (JStr ''null'') ''social_media_post'' \<noteq>
       evaluate_request (stub_env []) (JStr (json_dumps (stub_env []) (JObj [])))
         ''social_media_post''"
proof -
  let ?E = "stub_env []"
  have dumps: "stub_dumps JNull = ''null''" "stub_dumps (JObj []) = ''{}''"
    by (simp_all add: stub_dumps_def)
  have run: "compare_workflows ?E (Some sample_post) [] =
      (Inr \<lparr>reflexion_eval =
               \<lparr>ev_summary = \<lparr>quality_score = 0.9, feedback = ''good''\<rparr>,
                ev_social = \<lparr>quality_score = 0.9, feedback = ''good''\<rparr>,
                ev_email = \<lparr>quality_score = 0.9, feedback = ''good''\<rparr>\<rparr>,
             agent_eval =
               \<lparr>ev_summary = \<lparr>quality_score = 0.9, feedback = ''good''\<rparr>,
                ev_social = \<lparr>quality_score = 0.9, feedback = ''good''\<rparr>,
                ev_email = \<lparr>quality_score = 0.9, feedback = ''good''\<rparr>\<rparr>\<rparr>,
       snd (run_workflow_with_reflexion ?E (Some sample_post) []) @
       [agent_request (initial_messages sample_post),
        evaluate_request ?E (JStr ''S'') ''summary'',
        evaluate_request ?E
          (JStr (stub_dumps (JObj [(''twitter'', JStr ''x''), (''linkedin'', JStr ''y''),
                                   (''facebook'', JStr ''z'')]))) ''social_media_post'',
        evaluate_request ?E
          (JStr (stub_dumps (JObj [(''subject'', JStr ''Sub''), (''body'', JStr ''Body'')])))
          ''email'',
        evaluate_request ?E JNull ''summary'',
        evaluate_request ?E (JStr ''null'') ''social_media_post'',
        evaluate_request ?E (JStr ''null'') ''email''])"
    by (simp add: compare_workflows_def compare_report_def bind_def lift_def returns_def
          stub_workflow stub_agent_idle stub_evaluate dumps)
  have msgs: "evaluate_messages ?E JNull ''summary'' =
       [Msg ''system'' ''Evaluate quality and give feedback.'',
        Msg ''user'' (''Evaluate this summary:'' @ nl @ ''None'')]"
    by (simp add: evaluate_messages_def fmt_def stub_repr_def)
  have ne1: "evaluate_request ?E JNull ''summary'' \<noteq> evaluate_request ?E (JStr []) ''summary''"
    by (simp add: evaluate_request_def evaluate_messages_def fmt_def stub_repr_def)
  have ne2: "evaluate_request ?E (JStr ''null'') ''social_media_post'' \<noteq>
       evaluate_request ?E (JStr (json_dumps ?E (JObj []))) ''social_media_post''"
    by (simp add: evaluate_request_def evaluate_messages_def fmt_def dumps)
  from run msgs ne1 ne2 show ?thesis
    by (simp add: stub_workflow stub_agent_idle)
qed

end
